theory Spec2Isabelle
  imports Main "HOL-Library.Sublist"
begin

section \<open>Strings\<close>

text \<open>
  A JavaScript string is a sequence of UTF-16 code units. A code unit is a natural number
  here (below 65536 in every string the page can hold), so that the characters the script
  writes outside ASCII (the cross mark U+274C, the letter U+00E3) and the ones the engine
  treats specially (U+2028, U+2029, the Unicode spaces) are what they are in the browser.
  \<open>js\<close> turns an ASCII literal into its code units.
\<close>

type_synonym jsstring = "nat list"

abbreviation js :: "string \<Rightarrow> jsstring" where
  "js s \<equiv> map of_char s"

text \<open>The character classes of the regular expressions: \<open>\w\<close>, and the line terminators
  that \<open>.\<close> does not match.\<close>

definition is_word :: "nat \<Rightarrow> bool" where
  "is_word c \<longleftrightarrow> (97 \<le> c \<and> c \<le> 122) \<or> (65 \<le> c \<and> c \<le> 90) \<or> (48 \<le> c \<and> c \<le> 57) \<or> c = 95"

definition is_line_terminator :: "nat \<Rightarrow> bool" where
  "is_line_terminator c \<longleftrightarrow> c = 10 \<or> c = 13 \<or> c = 8232 \<or> c = 8233"

text \<open>\<open>String.prototype.trim\<close> strips white space and line terminators from both ends:
  TAB, VT, FF, SP, NBSP, the byte order mark, the space separators of Unicode, and the four
  line terminators.\<close>

definition is_white_space :: "nat \<Rightarrow> bool" where
  "is_white_space c \<longleftrightarrow>
     c = 9 \<or> c = 11 \<or> c = 12 \<or> c = 32 \<or> c = 160 \<or> c = 65279 \<or> c = 5760 \<or>
     (8192 \<le> c \<and> c \<le> 8202) \<or> c = 8239 \<or> c = 8287 \<or> c = 12288 \<or> is_line_terminator c"

definition trim :: "jsstring \<Rightarrow> jsstring" where
  "trim s = rev (dropWhile is_white_space (rev (dropWhile is_white_space s)))"

section \<open>The regular expressions of the formatter\<close>

text \<open>
  The four patterns of \<open>adicionarMensagemChat\<close> are sequences of literals, one-character
  classes under a greedy star, a lazy star or a question mark. \<open>rmatch\<close> is the
  backtracking matcher of the engine on that fragment, anchored at the start of its
  input: it returns the first match in the engine's order of preference (a greedy star
  tries the longest run first, a lazy star the shortest, a question mark one character
  before none), with the text each star consumed and the input left after the match.
  In all of these patterns the parenthesised groups are exactly the starred items, so
  the list of consumed texts is the list of capture groups \<open>$1\<close>, \<open>$2\<close>. The patterns
  carry the flag \<open>g\<close> and no other: a character is one code unit, \<open>\w\<close> is ASCII, and
  the dot stops at a line terminator.
\<close>

datatype cls = Word | Dot | AnyChar | Chr nat

fun in_cls :: "cls \<Rightarrow> nat \<Rightarrow> bool" where
  "in_cls Word c = is_word c"
| "in_cls Dot c = (\<not> is_line_terminator c)"
| "in_cls AnyChar c = True"
| "in_cls (Chr d) c = (c = d)"

datatype item = Lit jsstring | Greedy cls | Opt cls | Lazy cls

fun cons_hd :: "nat \<Rightarrow> jsstring list \<Rightarrow> jsstring list" where
  "cons_hd x [] = [[x]]"
| "cons_hd x (g # gs) = (x # g) # gs"

fun rmatch :: "item list \<Rightarrow> jsstring \<Rightarrow> (jsstring list \<times> jsstring) option" where
  "rmatch [] s = Some ([], s)"
| "rmatch (Lit l # r) s = (if prefix l s then rmatch r (drop (length l) s) else None)"
| "rmatch (Opt c # r) [] = rmatch r []"
| "rmatch (Opt c # r) (x # xs) =
     (if in_cls c x
      then (case rmatch r xs of Some res \<Rightarrow> Some res | None \<Rightarrow> rmatch r (x # xs))
      else rmatch r (x # xs))"
| "rmatch (Greedy c # r) [] =
     (case rmatch r [] of Some (caps, rest) \<Rightarrow> Some ([] # caps, rest) | None \<Rightarrow> None)"
| "rmatch (Greedy c # r) (x # xs) =
     (case (if in_cls c x then rmatch (Greedy c # r) xs else None) of
        Some (caps, rest) \<Rightarrow> Some (cons_hd x caps, rest)
      | None \<Rightarrow>
          (case rmatch r (x # xs) of
             Some (caps, rest) \<Rightarrow> Some ([] # caps, rest)
           | None \<Rightarrow> None))"
| "rmatch (Lazy c # r) [] =
     (case rmatch r [] of Some (caps, rest) \<Rightarrow> Some ([] # caps, rest) | None \<Rightarrow> None)"
| "rmatch (Lazy c # r) (x # xs) =
     (case rmatch r (x # xs) of
        Some (caps, rest) \<Rightarrow> Some ([] # caps, rest)
      | None \<Rightarrow>
          (case (if in_cls c x then rmatch (Lazy c # r) xs else None) of
             Some (caps, rest) \<Rightarrow> Some (cons_hd x caps, rest)
           | None \<Rightarrow> None))"

text \<open>A replacement string is text with group references; a reference to a group the
  pattern does not have stays as it is written.\<close>

fun digits :: "nat \<Rightarrow> jsstring" where
  "digits n = (if n < 10 then [48 + n] else digits (n div 10) @ [48 + n mod 10])"

declare digits.simps [simp del]

datatype tpl = Txt jsstring | Grp nat

fun expand :: "tpl list \<Rightarrow> jsstring list \<Rightarrow> jsstring" where
  "expand [] caps = []"
| "expand (Txt t # r) caps = t @ expand r caps"
| "expand (Grp n # r) caps =
     (if 0 < n \<and> n \<le> length caps then caps ! (n - 1) else 36 # digits n) @ expand r caps"

text \<open>
  \<open>String.prototype.replace\<close> with a global pattern: the pattern is tried at each
  position from left to right; a match is replaced and the search goes on after it; an
  empty match is replaced too and the search moves one character on, up to and including
  the end of the string.
\<close>

fun replace_all :: "item list \<Rightarrow> tpl list \<Rightarrow> jsstring \<Rightarrow> jsstring" where
  "replace_all re t [] = (case rmatch re [] of Some (caps, rest) \<Rightarrow> expand t caps | None \<Rightarrow> [])"
| "replace_all re t (c # cs) =
     (case rmatch re (c # cs) of
        None \<Rightarrow> c # replace_all re t cs
      | Some (caps, rest) \<Rightarrow>
          if length rest < Suc (length cs) then expand t caps @ replace_all re t rest
          else expand t caps @ c # replace_all re t cs)"

definition fence_re :: "item list" where
  "fence_re = [Lit (js ''```''), Greedy Word, Opt (Chr 10), Lazy AnyChar, Lit (js ''```'')]"

definition bold_re :: "item list" where
  "bold_re = [Lit (js ''**''), Lazy Dot, Lit (js ''**'')]"

definition code_re :: "item list" where
  "code_re = [Lit (js ''`''), Lazy Dot, Lit (js ''`'')]"

definition newline_re :: "item list" where
  "newline_re = [Lit [10]]"

definition pre_tpl :: "tpl list" where
  "pre_tpl = [Txt (js ''<pre>''), Grp 2, Txt (js ''</pre>'')]"

definition strong_tpl :: "tpl list" where
  "strong_tpl = [Txt (js ''<strong>''), Grp 1, Txt (js ''</strong>'')]"

definition code_tpl :: "tpl list" where
  "code_tpl = [Txt (js ''<code>''), Grp 1, Txt (js ''</code>'')]"

definition br_tpl :: "tpl list" where
  "br_tpl = [Txt (js ''<br>'')]"

text \<open>The value of \<open>html\<close> in \<open>adicionarMensagemChat\<close>: the four replacements, each on the
  result of the one before.\<close>

definition html_of :: "jsstring \<Rightarrow> jsstring" where
  "html_of conteudo =
     replace_all newline_re br_tpl
       (replace_all code_re code_tpl
          (replace_all bold_re strong_tpl
             (replace_all fence_re pre_tpl conteudo)))"

section \<open>Values the server sends\<close>

text \<open>
  The value \<open>response.json()\<close> resolves to, and the values its properties hold.
  Numbers are the integers a double holds exactly (up to \<open>2^53\<close> in size), which print in
  decimal; other numbers are outside the model. An object is the list of its own
  properties.
\<close>

datatype jsval =
    JUndefined
  | JNull
  | JBool bool
  | JNum int
  | JStr jsstring
  | JArr "jsval list"
  | JObj "(jsstring \<times> jsval) list"

text \<open>An exception is either a \<open>TypeError\<close> that the script's own statements throw, or the
  reason of a promise the browser rejected, with the browser's description of it.\<close>

datatype jserror = TypeError | Failure jsstring

fun truthy :: "jsval \<Rightarrow> bool" where
  "truthy JUndefined = False"
| "truthy JNull = False"
| "truthy (JBool b) = b"
| "truthy (JNum n) = (n \<noteq> 0)"
| "truthy (JStr s) = (s \<noteq> [])"
| "truthy (JArr xs) = True"
| "truthy (JObj kvs) = True"

text \<open>
  Reading a property \<open>data.k\<close>, for a name \<open>k\<close> that no prototype defines (the script reads
  \<open>sucesso\<close>, \<open>resposta\<close> and \<open>erro\<close>): it throws on \<open>null\<close> and \<open>undefined\<close>, finds an own
  property of an object, and is \<open>undefined\<close> everywhere else.
\<close>

fun get_prop :: "jsval \<Rightarrow> jsstring \<Rightarrow> jserror + jsval" where
  "get_prop JUndefined k = Inl TypeError"
| "get_prop JNull k = Inl TypeError"
| "get_prop (JObj kvs) k = (case map_of kvs k of Some v \<Rightarrow> Inr v | None \<Rightarrow> Inr JUndefined)"
| "get_prop v k = Inr JUndefined"

definition int_digits :: "int \<Rightarrow> jsstring" where
  "int_digits n = (if n < 0 then 45 # digits (nat (- n)) else digits (nat n))"

text \<open>
  The string a value becomes when it is appended to a string. An array joins its
  elements with commas, \<open>null\<close> and \<open>undefined\<close> elements as the empty string. An object
  prints through \<open>Object.prototype.toString\<close>, unless it has an own property \<open>toString\<close>:
  that one is not callable, and the conversion throws.
\<close>

fun to_string :: "jsval \<Rightarrow> jserror + jsstring"
  and join_elems :: "jsval list \<Rightarrow> jserror + jsstring" where
  "to_string JUndefined = Inr (js ''undefined'')"
| "to_string JNull = Inr (js ''null'')"
| "to_string (JBool b) = Inr (if b then js ''true'' else js ''false'')"
| "to_string (JNum n) = Inr (int_digits n)"
| "to_string (JStr s) = Inr s"
| "to_string (JArr xs) = join_elems xs"
| "to_string (JObj kvs) =
     (if js ''toString'' \<in> fst ` set kvs then Inl TypeError else Inr (js ''[object Object]''))"
| "join_elems [] = Inr []"
| "join_elems (x # xs) =
     (case (if x = JNull \<or> x = JUndefined then Inr [] else to_string x) of
        Inl e \<Rightarrow> Inl e
      | Inr a \<Rightarrow>
          if xs = [] then Inr a
          else (case join_elems xs of Inl e \<Rightarrow> Inl e | Inr b \<Rightarrow> Inr (a @ 44 # b)))"

section \<open>JSON text of the request\<close>

definition hex_digit :: "nat \<Rightarrow> nat" where
  "hex_digit n = (if n < 10 then 48 + n else 87 + n)"

definition unicode_escape :: "nat \<Rightarrow> jsstring" where
  "unicode_escape c =
     [92, 117, hex_digit (c div 4096 mod 16), hex_digit (c div 256 mod 16),
      hex_digit (c div 16 mod 16), hex_digit (c mod 16)]"

definition is_high_surrogate :: "nat \<Rightarrow> bool" where
  "is_high_surrogate c \<longleftrightarrow> 55296 \<le> c \<and> c \<le> 56319"

definition is_low_surrogate :: "nat \<Rightarrow> bool" where
  "is_low_surrogate c \<longleftrightarrow> 56320 \<le> c \<and> c \<le> 57343"

definition escape_unit :: "nat \<Rightarrow> jsstring" where
  "escape_unit c =
     (if c = 8 then [92, 98]
      else if c = 9 then [92, 116]
      else if c = 10 then [92, 110]
      else if c = 12 then [92, 102]
      else if c = 13 then [92, 114]
      else if c = 34 then [92, 34]
      else if c = 92 then [92, 92]
      else if c < 32 \<or> is_high_surrogate c \<or> is_low_surrogate c then unicode_escape c
      else [c])"

text \<open>A surrogate pair is one code point and is copied; a surrogate on its own is
  escaped.\<close>

fun quote_units :: "jsstring \<Rightarrow> jsstring" where
  "quote_units (c # d # cs) =
     (if is_high_surrogate c \<and> is_low_surrogate d then c # d # quote_units cs
      else escape_unit c @ quote_units (d # cs))"
| "quote_units [c] = escape_unit c"
| "quote_units [] = []"

definition QuoteJSONString :: "jsstring \<Rightarrow> jsstring" where
  "QuoteJSONString s = 34 # quote_units s @ [34]"

text \<open>\<open>JSON.stringify\<close> of an object literal whose properties hold strings.\<close>

fun stringify_props :: "(jsstring \<times> jsstring) list \<Rightarrow> jsstring" where
  "stringify_props [] = []"
| "stringify_props [(k, v)] = QuoteJSONString k @ 58 # QuoteJSONString v"
| "stringify_props ((k, v) # kvs) = QuoteJSONString k @ 58 # QuoteJSONString v @ 44 # stringify_props kvs"

definition JSON_stringify :: "(jsstring \<times> jsstring) list \<Rightarrow> jsstring" where
  "JSON_stringify kvs = 123 # stringify_props kvs @ [125]"

section \<open>The page\<close>

text \<open>
  An element the script creates has an identity (\<open>nid\<close>, fresh from the page's counter at
  \<open>createElement\<close>), the tokens of its \<open>class\<close> attribute, and the markup or text assigned
  to it. An assignment to \<open>innerHTML\<close> runs the browser's parser on the markup, and the
  elements it creates are in the document like any other: \<open>querySelector\<close> finds them. Of
  these, the model keeps the ones with a \<open>class\<close> attribute, as a forest (\<open>inner\<close>): the
  only selectors the script uses on the document at large are two class names, so an
  element without the attribute is never found, and an element goes away with the
  element it lies in. The parser itself is a parameter of every function that assigns
  markup: \<open>parse m\<close> is the forest of the elements with a class attribute that the
  browser makes of the markup \<open>m\<close>, in document order. Layout (scroll position, the
  tooltip's coordinates, the style rules) is left out: no element comes or goes by it.
\<close>

datatype tree = El "jsstring list" "tree list"

datatype content = Html jsstring | Text jsstring

record node =
  nid :: nat
  classList :: "jsstring list"
  content :: content
  inner :: "tree list"

text \<open>The tokens of a \<open>class\<close> attribute: split at ASCII white space, each token once, in
  the order of first appearance.\<close>

definition is_ascii_ws :: "nat \<Rightarrow> bool" where
  "is_ascii_ws c \<longleftrightarrow> c = 9 \<or> c = 10 \<or> c = 12 \<or> c = 13 \<or> c = 32"

fun split_ws :: "jsstring \<Rightarrow> jsstring \<Rightarrow> jsstring list" where
  "split_ws cur [] = (if cur = [] then [] else [cur])"
| "split_ws cur (c # cs) =
     (if is_ascii_ws c then (if cur = [] then split_ws [] cs else cur # split_ws [] cs)
      else split_ws (cur @ [c]) cs)"

definition class_tokens :: "jsstring \<Rightarrow> jsstring list" where
  "class_tokens className = rev (remdups (rev (split_ws [] className)))"

definition has_class :: "jsstring \<Rightarrow> node \<Rightarrow> bool" where
  "has_class c n \<longleftrightarrow> c \<in> set (classList n)"

text \<open>A request \<open>fetch\<close> has issued.\<close>

record request =
  url :: jsstring
  http_method :: jsstring
  headers :: "(jsstring \<times> jsstring) list"
  payload :: jsstring

text \<open>The callbacks \<open>mostrarNotificacao\<close> hands to \<open>setTimeout\<close>; each holds the toast it
  was created for.\<close>

datatype callback = AddShow nat | Hide nat | Remove nat

text \<open>
  The page, as far as the script reads and writes it: the value of \<open>#chatInput\<close>, the
  child nodes of \<open>#chatMessages\<close>, the elements of the document behind the transcript in
  document order (an element appended to the body comes last), the requests issued, the
  lines written to the console, and the pending timers with their delays in
  milliseconds. The identified elements the script looks up exist, as the page's markup
  provides them, and the page's own markup around the transcript carries neither of the
  two class names the script selects by.
\<close>

record page =
  next_id :: nat
  chatInput :: jsstring
  chatMessages :: "node list"
  elements :: "node list"
  requests :: "request list"
  console :: "(jsstring \<times> jserror) list"
  timers :: "(nat \<times> callback) list"

text \<open>The page as it loads before anything is typed: no message, no toast, no tooltip.\<close>

definition empty_page :: page where
  "empty_page =
     \<lparr>next_id = 0, chatInput = [], chatMessages = [], elements = [], requests = [],
      console = [], timers = []\<rparr>"

section \<open>Selecting by class\<close>

text \<open>How many elements of a forest, of a list of nodes with what lies in them, and of the
  whole document carry a class.\<close>

fun count_trees :: "jsstring \<Rightarrow> tree list \<Rightarrow> nat" where
  "count_trees c [] = 0"
| "count_trees c (El cl ks # ts) =
     (if c \<in> set cl then 1 else 0) + count_trees c ks + count_trees c ts"

fun count_nodes :: "jsstring \<Rightarrow> node list \<Rightarrow> nat" where
  "count_nodes c [] = 0"
| "count_nodes c (n # ns) =
     (if has_class c n then 1 else 0) + count_trees c (inner n) + count_nodes c ns"

definition count_class :: "jsstring \<Rightarrow> page \<Rightarrow> nat" where
  "count_class c s = count_nodes c (chatMessages s) + count_nodes c (elements s)"

text \<open>
  \<open>const e = document.querySelector('.c'); if (e) e.remove();\<close> takes the first element
  of class \<open>c\<close> in document order out of the document, with all that lies in it: an
  element comes before the ones in it, and those before what follows it. \<open>prune\<close> does it
  in a forest, \<open>remove_first\<close> in a list of nodes, \<open>remove_selected\<close> in the page, where the
  transcript comes before the elements behind it.
\<close>

fun prune :: "jsstring \<Rightarrow> tree list \<Rightarrow> tree list option" where
  "prune c [] = None"
| "prune c (El cl ks # ts) =
     (if c \<in> set cl then Some ts
      else (case prune c ks of
              Some ks' \<Rightarrow> Some (El cl ks' # ts)
            | None \<Rightarrow>
                (case prune c ts of
                   Some ts' \<Rightarrow> Some (El cl ks # ts')
                 | None \<Rightarrow> None)))"

fun remove_first :: "jsstring \<Rightarrow> node list \<Rightarrow> node list option" where
  "remove_first c [] = None"
| "remove_first c (n # ns) =
     (if has_class c n then Some ns
      else (case prune c (inner n) of
              Some f \<Rightarrow> Some (n\<lparr>inner := f\<rparr> # ns)
            | None \<Rightarrow>
                (case remove_first c ns of
                   Some ns' \<Rightarrow> Some (n # ns')
                 | None \<Rightarrow> None)))"

definition remove_selected :: "jsstring \<Rightarrow> page \<Rightarrow> page" where
  "remove_selected c s =
     (case remove_first c (chatMessages s) of
        Some ms \<Rightarrow> s\<lparr>chatMessages := ms\<rparr>
      | None \<Rightarrow>
          (case remove_first c (elements s) of
             Some es \<Rightarrow> s\<lparr>elements := es\<rparr>
           | None \<Rightarrow> s))"

section \<open>The chat\<close>

text \<open>
  \<open>adicionarMensagemChat(role, conteudo)\<close>: the role is \<open>'user'\<close> or \<open>'assistant'\<close> and the
  content a string, as the function's documentation says and as its callers in the script
  pass them, except for \<open>data.resposta\<close> (see \<open>on_data\<close> below).
\<close>

datatype role = User | Assistant

fun role_name :: "role \<Rightarrow> jsstring" where
  "role_name User = js ''user''"
| "role_name Assistant = js ''assistant''"

definition adicionarMensagemChat ::
    "(jsstring \<Rightarrow> tree list) \<Rightarrow> role \<Rightarrow> jsstring \<Rightarrow> page \<Rightarrow> page" where
  "adicionarMensagemChat parse r conteudo s =
     (let html = html_of conteudo;
          div_el = \<lparr>nid = next_id s,
                    classList = class_tokens (js ''message '' @ role_name r),
                    content = Html (js ''<p>'' @ html @ js ''</p>''),
                    inner = parse (js ''<p>'' @ html @ js ''</p>'')\<rparr>
      in s\<lparr>next_id := Suc (next_id s), chatMessages := chatMessages s @ [div_el]\<rparr>)"

text \<open>The element \<open>adicionarMensagemChat\<close> builds, given its identity.\<close>

definition message_node ::
    "(jsstring \<Rightarrow> tree list) \<Rightarrow> nat \<Rightarrow> role \<Rightarrow> jsstring \<Rightarrow> node" where
  "message_node parse i r conteudo =
     \<lparr>nid = i, classList = [js ''message'', role_name r],
      content = Html (js ''<p>'' @ html_of conteudo @ js ''</p>''),
      inner = parse (js ''<p>'' @ html_of conteudo @ js ''</p>'')\<rparr>"

definition typing_indicator :: jsstring where
  \<open>typing_indicator = js ''<em class="typing">Pensando...</em>''\<close>

definition enviarMensagem :: "(jsstring \<Rightarrow> tree list) \<Rightarrow> page \<Rightarrow> page" where
  "enviarMensagem parse s =
     (let mensagem = trim (chatInput s)
      in if mensagem = [] then s
         else
           let s1 = adicionarMensagemChat parse User mensagem s;
               s2 = s1\<lparr>chatInput := []\<rparr>;
               s3 = adicionarMensagemChat parse Assistant typing_indicator s2
           in s3\<lparr>requests := requests s3 @
                  [\<lparr>url = js ''/ai/chat'', http_method = js ''POST'',
                    headers = [(js ''Content-Type'', js ''application/json'')],
                    payload = JSON_stringify [(js ''mensagem'', mensagem)]\<rparr>]\<rparr>)"

text \<open>\<open>mensagens.removeChild(mensagens.lastChild)\<close>: with no child, \<open>lastChild\<close> is \<open>null\<close>
  and \<open>removeChild\<close> throws.\<close>

definition remove_last_child :: "page \<Rightarrow> page option" where
  "remove_last_child s =
     (if chatMessages s = [] then None else Some (s\<lparr>chatMessages := butlast (chatMessages s)\<rparr>))"

text \<open>
  The two handlers of the promise chain return the exception they end with, if any, and
  the page as they leave it. In the first, \<open>data.resposta\<close> reaches
  \<open>adicionarMensagemChat\<close> unchecked: a value that is not a string has no \<open>replace\<close> to
  call, and the call throws before anything is attached to the page.
\<close>

definition cross_mark :: jsstring where
  "cross_mark = [10060, 32]"

definition on_data :: "(jsstring \<Rightarrow> tree list) \<Rightarrow> jsval \<Rightarrow> page \<Rightarrow> jserror option \<times> page" where
  "on_data parse data s =
     (case remove_last_child s of
        None \<Rightarrow> (Some TypeError, s)
      | Some s1 \<Rightarrow>
          (case get_prop data (js ''sucesso'') of
             Inl e \<Rightarrow> (Some e, s1)
           | Inr sucesso \<Rightarrow>
               if truthy sucesso then
                 (case get_prop data (js ''resposta'') of
                    Inl e \<Rightarrow> (Some e, s1)
                  | Inr (JStr resposta) \<Rightarrow>
                      (None, adicionarMensagemChat parse Assistant resposta s1)
                  | Inr _ \<Rightarrow> (Some TypeError, s1))
               else
                 (case get_prop data (js ''erro'') of
                    Inl e \<Rightarrow> (Some e, s1)
                  | Inr erro \<Rightarrow>
                      (case to_string erro of
                         Inl e \<Rightarrow> (Some e, s1)
                       | Inr t \<Rightarrow>
                           (None, adicionarMensagemChat parse Assistant (cross_mark @ t) s1)))))"

definition connection_error :: jsstring where
  "connection_error = cross_mark @ js ''Erro de conex'' @ [227] @ js ''o com o servidor.''"

definition on_catch :: "(jsstring \<Rightarrow> tree list) \<Rightarrow> jserror \<Rightarrow> page \<Rightarrow> jserror option \<times> page" where
  "on_catch parse error s =
     (case remove_last_child s of
        None \<Rightarrow> (Some TypeError, s)
      | Some s1 \<Rightarrow>
          (let s2 = adicionarMensagemChat parse Assistant connection_error s1
           in (None, s2\<lparr>console := console s2 @ [(js ''Erro no chat:'', error)]\<rparr>)))"

text \<open>
  How the request ends: \<open>fetch\<close> rejects, or \<open>response.json()\<close> rejects because the body
  is not JSON, or it resolves to a value. \<open>settle\<close> runs the chain
  \<open>.then(response => response.json()).then(data => ...).catch(error => ...)\<close> on that:
  a rejection skips to the \<open>catch\<close> handler, and so does an exception of the \<open>then\<close>
  handler, on the page as that handler left it. An exception of the \<open>catch\<close> handler is
  the chain's result.
\<close>

datatype outcome = Rejected jserror | Malformed jserror | Parsed jsval

fun settle :: "(jsstring \<Rightarrow> tree list) \<Rightarrow> outcome \<Rightarrow> page \<Rightarrow> jserror option \<times> page" where
  "settle parse (Rejected error) s = on_catch parse error s"
| "settle parse (Malformed error) s = on_catch parse error s"
| "settle parse (Parsed data) s =
     (case on_data parse data s of
        (None, s1) \<Rightarrow> (None, s1)
      | (Some error, s1) \<Rightarrow> on_catch parse error s1)"

section \<open>Tooltips\<close>

text \<open>The argument is \<open>event.target.dataset.tooltip\<close>: \<open>None\<close> when the hovered element has
  no \<open>data-tooltip\<close> attribute. The tooltip's words are assigned to \<open>textContent\<close>, which
  creates no element.\<close>

definition mostrarTooltip :: "jsstring option \<Rightarrow> page \<Rightarrow> page" where
  "mostrarTooltip texto s =
     (case texto of
        None \<Rightarrow> s
      | Some t \<Rightarrow>
          if t = [] then s
          else
            let tooltip = \<lparr>nid = next_id s, classList = class_tokens (js ''tooltip''),
                           content = Text t, inner = []\<rparr>
            in s\<lparr>next_id := Suc (next_id s), elements := elements s @ [tooltip]\<rparr>)"

definition esconderTooltip :: "page \<Rightarrow> page" where
  "esconderTooltip s = remove_selected (js ''tooltip'') s"

text \<open>The elements of class \<open>tooltip\<close> in the document, wherever they are.\<close>

definition tooltip_count :: "page \<Rightarrow> nat" where
  "tooltip_count s = count_class (js ''tooltip'') s"

section \<open>Toasts\<close>

text \<open>
  \<open>icones[tipo] || ''\<close>: the three own properties of \<open>icones\<close>, and for any other name
  what the prototype of an object literal gives. \<open>inherited k\<close> stands for the text of
  \<open>Object.prototype[k]\<close> in the template, which is the engine's: it is empty for every
  name the prototype does not have.
\<close>

definition icone :: "(jsstring \<Rightarrow> jsstring) \<Rightarrow> jsstring \<Rightarrow> jsstring" where
  "icone inherited tipo =
     (if tipo = js ''success'' then [9989]
      else if tipo = js ''error'' then [10060]
      else if tipo = js ''info'' then [8505, 65039]
      else inherited tipo)"

text \<open>The markup assigned to the toast; \<open>tipo_arg\<close> is \<open>None\<close> when the caller passes no
  \<open>tipo\<close>, which then is \<open>'info'\<close>.\<close>

definition tipo_of :: "jsstring option \<Rightarrow> jsstring" where
  "tipo_of tipo_arg = (case tipo_arg of None \<Rightarrow> js ''info'' | Some t \<Rightarrow> t)"

definition toast_markup :: "(jsstring \<Rightarrow> jsstring) \<Rightarrow> jsstring \<Rightarrow> jsstring option \<Rightarrow> jsstring" where
  "toast_markup inherited mensagem tipo_arg =
     js ''<span>'' @ icone inherited (tipo_of tipo_arg) @ js ''</span> '' @ mensagem"

definition add_class :: "jsstring \<Rightarrow> node \<Rightarrow> node" where
  "add_class c n = (if c \<in> set (classList n) then n else n\<lparr>classList := classList n @ [c]\<rparr>)"

definition remove_class :: "jsstring \<Rightarrow> node \<Rightarrow> node" where
  "remove_class c n = n\<lparr>classList := filter (\<lambda>t. t \<noteq> c) (classList n)\<rparr>"

text \<open>A change to the element a callback holds, and its \<open>remove()\<close>: the toast was appended
  to the body, so it is among the elements behind the transcript or not in the document
  any more; an element that has left the document is not seen again.\<close>

definition update_node :: "nat \<Rightarrow> (node \<Rightarrow> node) \<Rightarrow> page \<Rightarrow> page" where
  "update_node i f s = s\<lparr>elements := map (\<lambda>n. if nid n = i then f n else n) (elements s)\<rparr>"

definition remove_node :: "nat \<Rightarrow> page \<Rightarrow> page" where
  "remove_node i s = s\<lparr>elements := filter (\<lambda>n. nid n \<noteq> i) (elements s)\<rparr>"

definition mostrarNotificacao ::
    "(jsstring \<Rightarrow> tree list) \<Rightarrow> (jsstring \<Rightarrow> jsstring) \<Rightarrow> jsstring \<Rightarrow> jsstring option \<Rightarrow>
     page \<Rightarrow> page" where
  "mostrarNotificacao parse inherited mensagem tipo_arg s =
     (let s1 = remove_selected (js ''toast-notification'') s;
          toast = \<lparr>nid = next_id s1,
                   classList = class_tokens (js ''toast-notification toast-'' @ tipo_of tipo_arg),
                   content = Html (toast_markup inherited mensagem tipo_arg),
                   inner = parse (toast_markup inherited mensagem tipo_arg)\<rparr>
      in s1\<lparr>next_id := Suc (next_id s1),
            elements := elements s1 @ [toast],
            timers := timers s1 @ [(10, AddShow (nid toast)), (4000, Hide (nid toast))]\<rparr>)"

fun run_callback :: "callback \<Rightarrow> page \<Rightarrow> page" where
  "run_callback (AddShow i) s = update_node i (add_class (js ''show'')) s"
| "run_callback (Hide i) s =
     (let s1 = update_node i (remove_class (js ''show'')) s
      in s1\<lparr>timers := timers s1 @ [(300, Remove i)]\<rparr>)"
| "run_callback (Remove i) s = remove_node i s"

text \<open>
  What can happen to the toasts of a page: a call of \<open>mostrarNotificacao\<close>, or a pending
  timer firing. \<open>Fire k\<close> fires the \<open>k\<close>-th pending timer whatever its delay, so the runs
  of \<open>run_events\<close> include every order in which the browser can fire the timers between
  calls.
\<close>

datatype event = Call jsstring "jsstring option" | Fire nat

fun step ::
    "(jsstring \<Rightarrow> tree list) \<Rightarrow> (jsstring \<Rightarrow> jsstring) \<Rightarrow> event \<Rightarrow> page \<Rightarrow> page" where
  "step parse inherited (Call mensagem tipo) s = mostrarNotificacao parse inherited mensagem tipo s"
| "step parse inherited (Fire k) s =
     (if k < length (timers s)
      then run_callback (snd (timers s ! k))
             (s\<lparr>timers := take k (timers s) @ drop (Suc k) (timers s)\<rparr>)
      else s)"

fun run_events ::
    "(jsstring \<Rightarrow> tree list) \<Rightarrow> (jsstring \<Rightarrow> jsstring) \<Rightarrow> event list \<Rightarrow> page \<Rightarrow> page" where
  "run_events parse inherited [] s = s"
| "run_events parse inherited (e # es) s = run_events parse inherited es (step parse inherited e s)"

text \<open>The elements of class \<open>toast-notification\<close> in the document, wherever they are.\<close>

definition toast_count :: "page \<Rightarrow> nat" where
  "toast_count s = count_class (js ''toast-notification'') s"

text \<open>A call whose message, as markup, creates no element of class \<open>toast-notification\<close>.\<close>

fun plain_call :: "(jsstring \<Rightarrow> tree list) \<Rightarrow> (jsstring \<Rightarrow> jsstring) \<Rightarrow> event \<Rightarrow> bool" where
  "plain_call parse inherited (Call mensagem tipo) =
     (count_trees (js ''toast-notification'') (parse (toast_markup inherited mensagem tipo)) = 0)"
| "plain_call parse inherited (Fire k) = True"

section \<open>Example pages\<close>

text \<open>
  The parser on the markup of the examples below. The placeholder's \<open>em\<close> element carries
  the class \<open>typing\<close>; the toast whose message is \<open><b class=toast-notification>x</b>\<close>
  holds that one element with a class behind its icon, and so does the chat message of
  that text in its paragraph; every other markup string of the examples has no class
  attribute, so the parser makes no element with a class of it. On markup outside the
  examples this function is not the browser's.
\<close>

definition injected :: jsstring where
  "injected = js ''<b class=toast-notification>x</b>''"

definition example_parse :: "jsstring \<Rightarrow> tree list" where
  "example_parse markup =
     (if markup = js ''<p>'' @ typing_indicator @ js ''</p>'' then [El [js ''typing''] []]
      else if markup = js ''<span>'' @ [8505, 65039] @ js ''</span> '' @ injected
      then [El [js ''toast-notification''] []]
      else if markup = js ''<p>'' @ injected @ js ''</p>''
      then [El [js ''toast-notification''] []]
      else [])"

text \<open>The page right after \<open>hi\<close> has been typed into the empty page and sent.\<close>

definition hi_sent :: page where
  "hi_sent = enviarMensagem example_parse (empty_page\<lparr>chatInput := js ''hi''\<rparr>)"

text \<open>A page that shows one earlier message of the assistant, with \<open>ok\<close> typed between
  spaces.\<close>

definition greeted :: page where
  "greeted =
     empty_page\<lparr>next_id := 1, chatInput := js '' ok '',
                chatMessages := [message_node example_parse 0 Assistant (js ''Pronto'')]\<rparr>"

text \<open>A page whose transcript shows two messages of the text
  \<open><b class=toast-notification>x</b>\<close>.\<close>

definition typed_twice :: page where
  "typed_twice =
     empty_page\<lparr>next_id := 2,
                chatMessages := [message_node example_parse 0 User injected,
                                 message_node example_parse 1 User injected]\<rparr>"

section \<open>How the patterns match\<close>

lemmas re_defs =
  fence_re_def bold_re_def code_re_def newline_re_def
  pre_tpl_def strong_tpl_def code_tpl_def br_tpl_def

text \<open>A lazy star in front of a literal stops at the first place the literal's first
  character shows up, when the literal is there.\<close>

lemma rmatch_lazy_run:
  assumes "\<forall>c\<in>set x. in_cls cl c \<and> c \<noteq> d"
  shows "rmatch [Lazy cl, Lit (d # l)] (x @ (d # l) @ rest) = Some ([x], rest)"
  using assms by (induction x) auto

text \<open>A greedy star keeps the whole run of its class when the rest of the pattern matches
  behind the run.\<close>

lemma rmatch_greedy_run:
  assumes "\<forall>c\<in>set w. in_cls cl c"
      and "rmatch r s = Some (caps, rest)"
      and "s = [] \<or> \<not> in_cls cl (hd s)"
  shows "rmatch (Greedy cl # r) (w @ s) = Some (w # caps, rest)"
  using assms
proof (induction w)
  case Nil
  then show ?case by (cases s) auto
next
  case (Cons a w)
  then show ?case by simp
qed

text \<open>A pattern that starts with a literal leaves text without that literal's first
  character alone.\<close>

lemma replace_all_skip:
  assumes "d \<notin> set p"
  shows "replace_all (Lit (d # l) # r) t (p @ s) = p @ replace_all (Lit (d # l) # r) t s"
  using assms by (induction p) auto

lemma replace_all_none:
  assumes "d \<notin> set p"
  shows "replace_all (Lit (d # l) # r) t p = p"
  using assms by (induction p) auto

lemma fence_none: "96 \<notin> set s \<Longrightarrow> replace_all fence_re t s = s"
  unfolding fence_re_def using replace_all_none [of 96 s "[96, 96]"] by simp

lemma bold_none: "42 \<notin> set s \<Longrightarrow> replace_all bold_re t s = s"
  unfolding bold_re_def using replace_all_none [of 42 s "[42]"] by simp

lemma code_none: "96 \<notin> set s \<Longrightarrow> replace_all code_re t s = s"
  unfolding code_re_def using replace_all_none [of 96 s "[]"] by simp

lemma replace_newline:
  "replace_all newline_re br_tpl s = concat (map (\<lambda>c. if c = 10 then js ''<br>'' else [c]) s)"
  by (induction s) (auto simp: newline_re_def br_tpl_def)

lemma newline_free:
  "10 \<notin> set s \<Longrightarrow> concat (map (\<lambda>c. if c = 10 then js ''<br>'' else [c]) s) = s"
  by (induction s) auto

lemma html_plain:
  assumes "10 \<notin> set s" "42 \<notin> set s" "96 \<notin> set s"
  shows "html_of s = s"
  using assms
  by (simp add: html_of_def fence_none bold_none code_none replace_newline newline_free)

text \<open>A lazy star in front of a literal, in general: it stops at the first place where
  the literal is.\<close>

lemma rmatch_lazy_first:
  assumes "\<forall>c\<in>set x. in_cls cl c"
      and "\<forall>k<length x. \<not> prefix l (drop k x @ l @ rest)"
  shows "rmatch [Lazy cl, Lit l] (x @ l @ rest) = Some ([x], rest)"
  using assms
proof (induction x)
  case Nil
  have "rmatch [Lit l] (l @ rest) = Some ([], rest)"
    by simp
  then have "rmatch [Lazy cl, Lit l] (l @ rest) = Some ([[]], rest)"
    by (cases "l @ rest") simp_all
  then show ?case by simp
next
  case (Cons c x)
  have miss: "\<not> prefix l (c # x @ l @ rest)"
    using Cons.prems(2) by (auto dest: spec [of _ 0])
  have later: "\<forall>k<length x. \<not> prefix l (drop k x @ l @ rest)"
    using Cons.prems(2) by (auto dest: spec [of _ "Suc k" for k])
  have "rmatch [Lazy cl, Lit l] (x @ l @ rest) = Some ([x], rest)"
    using Cons.IH Cons.prems(1) later by simp
  then show ?case
    using miss Cons.prems(1) by simp
qed

text \<open>When two asterisks in a row do not occur in \<open>x\<close>, nor at its end with one more
  behind it, the first pair of asterisks in \<open>x**\<close> is the one behind \<open>x\<close>.\<close>

lemma first_stars:
  assumes "\<not> sublist [42, 42] (x @ [42::nat])" and "k < length x"
  shows "\<not> prefix [42, 42] (drop k x @ [42, 42] @ rest)"
proof
  assume p: "prefix [42, 42] (drop k x @ [42, 42] @ rest)"
  obtain c d where d: "drop k x = c # d"
    using assms(2) by (cases "drop k x") auto
  have c: "c = 42" using p d by simp
  have "sublist [42, 42] (x @ [42])"
  proof (cases d)
    case Nil
    then have "x @ [42] = take k x @ [42, 42] @ []"
      using d c by (metis append_take_drop_id append_Cons append_Nil append_assoc)
    then show ?thesis unfolding sublist_def by blast
  next
    case (Cons e d')
    then have "e = 42" using p d by simp
    then have "x @ [42] = take k x @ [42, 42] @ (d' @ [42])"
      using d c Cons by (metis append_take_drop_id append_Cons append_Nil append_assoc)
    then show ?thesis unfolding sublist_def by blast
  qed
  then show False using assms(1) by simp
qed

lemma no_stars:
  assumes "42 \<notin> set y"
  shows "\<not> sublist [42, 42] (y @ [42::nat])"
proof
  assume "sublist [42, 42] (y @ [42])"
  then obtain ps ss where e: "y @ [42] = ps @ [42, 42] @ ss"
    unfolding sublist_def by blast
  have "y = butlast (ps @ [42, 42] @ ss)"
    using e by (metis butlast_snoc)
  then have "y = ps @ 42 # butlast (42 # ss)"
    by (simp add: butlast_append)
  then have "42 \<in> set y"
    by (metis in_set_conv_decomp)
  then show False using assms by simp
qed

lemma bold_span:
  assumes "\<forall>c\<in>set x. \<not> is_line_terminator c" and "\<not> sublist (js ''**'') (x @ js ''*'')"
  shows "replace_all bold_re strong_tpl (js ''**'' @ x @ js ''**'' @ rest) =
         js ''<strong>'' @ x @ js ''</strong>'' @ replace_all bold_re strong_tpl rest"
proof -
  have s: "\<not> sublist [42, 42] (x @ [42::nat])"
    using assms(2) by simp
  have m: "rmatch [Lazy Dot, Lit [42, 42]] (x @ [42, 42] @ rest) = Some ([x], rest)"
    using rmatch_lazy_first [of x Dot "[42, 42]" rest] first_stars [OF s] assms(1) by simp
  have "rmatch bold_re (42 # 42 # x @ js ''**'' @ rest) = Some ([x], rest)"
    using m by (simp add: bold_re_def)
  then show ?thesis
    by (simp add: strong_tpl_def)
qed

lemma code_span:
  assumes "\<forall>c\<in>set x. \<not> is_line_terminator c \<and> c \<noteq> 96"
  shows "replace_all code_re code_tpl (js ''`'' @ x @ js ''`'' @ rest) =
         js ''<code>'' @ x @ js ''</code>'' @ replace_all code_re code_tpl rest"
proof -
  have m: "rmatch [Lazy Dot, Lit (js ''`'')] (x @ js ''`'' @ rest) = Some ([x], rest)"
    using rmatch_lazy_run [of x Dot 96 "[]" rest] assms by simp
  have "rmatch code_re (96 # x @ js ''`'' @ rest) = Some ([x], rest)"
    using m by (simp add: code_re_def)
  then show ?thesis
    by (simp add: code_tpl_def)
qed

text \<open>A fence, a run of word characters, a newline, a body without a backquote, a fence:
  the run is group 1, the body group 2.\<close>

lemma fence_block:
  assumes "\<forall>c\<in>set w. is_word c" and "96 \<notin> set b"
  shows "replace_all fence_re pre_tpl (js ''```'' @ w @ [10] @ b @ js ''```'' @ rest) =
         js ''<pre>'' @ b @ js ''</pre>'' @ replace_all fence_re pre_tpl rest"
proof -
  have l: "rmatch [Lazy AnyChar, Lit (js ''```'')] (b @ js ''```'' @ rest) = Some ([b], rest)"
    using rmatch_lazy_run [of b AnyChar 96 "[96, 96]" rest] assms(2) by auto
  have o: "rmatch [Opt (Chr 10), Lazy AnyChar, Lit (js ''```'')] (10 # b @ js ''```'' @ rest)
           = Some ([b], rest)"
    using l by simp
  have g: "rmatch [Greedy Word, Opt (Chr 10), Lazy AnyChar, Lit (js ''```'')]
             (w @ 10 # b @ js ''```'' @ rest) = Some ([w, b], rest)"
    using rmatch_greedy_run [OF _ o, of w Word] assms(1) by (simp add: is_word_def)
  have "rmatch fence_re (96 # 96 # 96 # w @ 10 # b @ js ''```'' @ rest) = Some ([w, b], rest)"
    using g by (simp add: fence_re_def)
  then show ?thesis
    by (simp add: pre_tpl_def)
qed

text \<open>With the closing fence right behind the run of word characters, the run is still
  group 1 and group 2 is empty.\<close>

lemma fence_tag_only:
  assumes "\<forall>c\<in>set w. is_word c"
  shows "replace_all fence_re pre_tpl (js ''```'' @ w @ js ''```'' @ rest) =
         js ''<pre></pre>'' @ replace_all fence_re pre_tpl rest"
proof -
  have o: "rmatch [Opt (Chr 10), Lazy AnyChar, Lit (js ''```'')] (js ''```'' @ rest)
           = Some ([[]], rest)"
    by simp
  have g: "rmatch [Greedy Word, Opt (Chr 10), Lazy AnyChar, Lit (js ''```'')]
             (w @ js ''```'' @ rest) = Some ([w, []], rest)"
    using rmatch_greedy_run [OF _ o, of w Word] assms(1) by (simp add: is_word_def)
  have "rmatch fence_re (96 # 96 # 96 # w @ js ''```'' @ rest) = Some ([w, []], rest)"
    using g by (simp add: fence_re_def)
  then show ?thesis
    by (simp add: pre_tpl_def)
qed

section \<open>The formatter on fenced blocks\<close>

text \<open>The pattern takes the run of word characters right behind the opening fence as the
  language tag, which the replacement drops: a fenced run of word characters renders as
  the empty block, and the text of a block is all there when a newline ends the tag.\<close>

lemma fenced_word_is_tag:
  assumes "\<forall>c\<in>set w. is_word c"
  shows "html_of (js ''```'' @ w @ js ''```'') = js ''<pre></pre>'' \<and>
         html_of (js ''```'' @ w @ [10] @ js ''code```'') = js ''<pre>code</pre>''"
proof -
  have a: "replace_all fence_re pre_tpl (js ''```'' @ w @ js ''```'') = js ''<pre></pre>''"
    using fence_tag_only [OF assms, of "[]"] by (simp add: fence_re_def)
  have b: "replace_all fence_re pre_tpl (js ''```'' @ w @ [10] @ js ''code```'')
           = js ''<pre>code</pre>''"
    using fence_block [OF assms, of "js ''code''" "[]"] by (simp add: fence_re_def)
  have c: "html_of (js ''```'' @ w @ js ''```'') = js ''<pre></pre>''"
    unfolding html_of_def a
    by (simp add: bold_re_def code_re_def newline_re_def is_line_terminator_def)
  have d: "html_of (js ''```'' @ w @ [10] @ js ''code```'') = js ''<pre>code</pre>''"
    unfolding html_of_def b
    by (simp add: bold_re_def code_re_def newline_re_def is_line_terminator_def)
  show ?thesis using c d by simp
qed

text \<open>
  C4. The claim reads: rendering \<open>```code```\<close> yields a \<open><pre>\<close> block whose content is
  exactly \<open>code\<close>. The code does not do that: the greedy \<open>(\w*)\<close> takes \<open>code\<close> for the
  language tag, the second group, the only one the replacement uses, is empty, and the
  block comes out as \<open><pre></pre>\<close>. In the same way \<open>```ls -la```\<close> loses its
  first word. The text arrives whole when it starts with a character that is no word
  character, or behind a newline.
\<close>

theorem fenced_text_lost:
  "html_of (js ''```code```'') = js ''<pre></pre>'' \<and>
   html_of (js ''```ls -la```'') = js ''<pre> -la</pre>'' \<and>
   html_of (js ''``` code```'') = js ''<pre> code</pre>'' \<and>
   html_of (js ''```'' @ [10] @ js ''code```'') = js ''<pre>code</pre>''"
  by (simp add: html_of_def re_defs is_word_def is_line_terminator_def)

section \<open>The formatter on spans and line ends\<close>

text \<open>A lazy star in front of a literal finds nothing when the literal does not show up
  behind a run of the star's class.\<close>

lemma rmatch_lazy_none:
  assumes "\<not> (\<exists>x rest. t = x @ l @ rest \<and> (\<forall>c\<in>set x. in_cls cl c))"
  shows "rmatch [Lazy cl, Lit l] t = None"
  using assms
proof (induction t)
  case Nil
  then have "l \<noteq> []" by auto
  then show ?case by simp
next
  case (Cons c t)
  have miss: "\<not> prefix l (c # t)"
  proof
    assume "prefix l (c # t)"
    then obtain rest where "c # t = [] @ l @ rest"
      by (auto simp: prefix_def)
    then show False using Cons.prems by fastforce
  qed
  have later: "\<not> (\<exists>x rest. t = x @ l @ rest \<and> (\<forall>a\<in>set x. in_cls cl a))" if "in_cls cl c"
  proof
    assume "\<exists>x rest. t = x @ l @ rest \<and> (\<forall>a\<in>set x. in_cls cl a)"
    then obtain x rest where "t = x @ l @ rest" "\<forall>a\<in>set x. in_cls cl a"
      by blast
    then have "c # t = (c # x) @ l @ rest \<and> (\<forall>a\<in>set (c # x). in_cls cl a)"
      using that by simp
    then show False using Cons.prems by blast
  qed
  show ?case
  proof (cases "in_cls cl c")
    case True
    then show ?thesis using miss Cons.IH [OF later [OF True]] by simp
  next
    case False
    then show ?thesis using miss by simp
  qed
qed

lemma bold_copy:
  assumes "\<not> (\<exists>y r. c # cs = js ''**'' @ y @ js ''**'' @ r \<and> (\<forall>a\<in>set y. \<not> is_line_terminator a))"
  shows "replace_all bold_re strong_tpl (c # cs) = c # replace_all bold_re strong_tpl cs"
proof -
  have "rmatch bold_re (c # cs) = None"
  proof (cases "prefix [42, 42] (c # cs)")
    case False
    then show ?thesis by (auto simp: bold_re_def)
  next
    case True
    then obtain t where t: "c # cs = [42, 42] @ t"
      by (auto simp: prefix_def)
    have "\<not> (\<exists>x rest. t = x @ [42, 42] @ rest \<and> (\<forall>a\<in>set x. in_cls Dot a))"
      using assms t by auto
    from rmatch_lazy_none [OF this] show ?thesis
      using t by (simp add: bold_re_def)
  qed
  then show ?thesis by simp
qed

lemma code_copy:
  assumes "\<not> (\<exists>y r. c # cs = js ''`'' @ y @ js ''`'' @ r \<and> (\<forall>a\<in>set y. \<not> is_line_terminator a))"
  shows "replace_all code_re code_tpl (c # cs) = c # replace_all code_re code_tpl cs"
proof -
  have "rmatch code_re (c # cs) = None"
  proof (cases "c = 96")
    case False
    then show ?thesis by (simp add: code_re_def)
  next
    case True
    have "\<not> (\<exists>x rest. cs = x @ [96] @ rest \<and> (\<forall>a\<in>set x. in_cls Dot a))"
      using assms True by auto
    from rmatch_lazy_none [OF this] show ?thesis
      using True by (simp add: code_re_def)
  qed
  then show ?thesis by simp
qed

text \<open>Whether a literal shows up behind a run of characters that all satisfy \<open>P\<close>, one
  character at a time.\<close>

lemma run_then_Cons:
  "(\<exists>x rest. c # t = x @ l @ rest \<and> (\<forall>a\<in>set x. P a)) \<longleftrightarrow>
   prefix l (c # t) \<or> (P c \<and> (\<exists>x rest. t = x @ l @ rest \<and> (\<forall>a\<in>set x. P a)))"
proof
  assume "\<exists>x rest. c # t = x @ l @ rest \<and> (\<forall>a\<in>set x. P a)"
  then obtain x rest where e: "c # t = x @ l @ rest" and p: "\<forall>a\<in>set x. P a"
    by blast
  show "prefix l (c # t) \<or> (P c \<and> (\<exists>x rest. t = x @ l @ rest \<and> (\<forall>a\<in>set x. P a)))"
  proof (cases x)
    case Nil
    then show ?thesis using e by (auto simp: prefix_def)
  next
    case (Cons a x')
    then show ?thesis using e p by auto
  qed
next
  assume "prefix l (c # t) \<or> (P c \<and> (\<exists>x rest. t = x @ l @ rest \<and> (\<forall>a\<in>set x. P a)))"
  then show "\<exists>x rest. c # t = x @ l @ rest \<and> (\<forall>a\<in>set x. P a)"
  proof
    assume "prefix l (c # t)"
    then obtain rest where "c # t = [] @ l @ rest"
      by (auto simp: prefix_def)
    then show ?thesis by fastforce
  next
    assume "P c \<and> (\<exists>x rest. t = x @ l @ rest \<and> (\<forall>a\<in>set x. P a))"
    then obtain x rest where "t = x @ l @ rest" "\<forall>a\<in>set (c # x). P a"
      by auto
    then have "c # t = (c # x) @ l @ rest \<and> (\<forall>a\<in>set (c # x). P a)"
      by simp
    then show ?thesis by blast
  qed
qed

lemma run_then_stars:
  "(\<exists>x. (\<exists>rest. c # t = x @ 42 # 42 # rest) \<and> (\<forall>a\<in>set x. P a)) \<longleftrightarrow>
   prefix [42, 42] (c # t) \<or>
   (P c \<and> (\<exists>x. (\<exists>rest. t = x @ 42 # 42 # rest) \<and> (\<forall>a\<in>set x. P a)))"
  using run_then_Cons [of c t "[42, 42]" P] by simp

lemma run_then_tick:
  "(\<exists>x. (\<exists>rest. c # t = x @ 96 # rest) \<and> (\<forall>a\<in>set x. P a)) \<longleftrightarrow>
   c = 96 \<or> (P c \<and> (\<exists>x. (\<exists>rest. t = x @ 96 # rest) \<and> (\<forall>a\<in>set x. P a)))"
  using run_then_Cons [of c t "[96]" P] by simp

lemma html_no_newline: "10 \<notin> set (html_of s)"
  by (auto simp: html_of_def replace_newline split: if_splits)

lemma fence_skips_nested:
  assumes "96 \<notin> set x"
  shows "replace_all fence_re pre_tpl (js ''**`'' @ x @ js ''`**'' @ [10]) =
         js ''**`'' @ x @ js ''`**'' @ [10]"
proof -
  have m: "rmatch fence_re (96 # x @ js ''`**'' @ [10]) = None"
    using assms by (cases x) (auto simp: fence_re_def)
  have t: "replace_all fence_re pre_tpl (x @ js ''`**'' @ [10]) = x @ js ''`**'' @ [10]"
    unfolding fence_re_def
    using replace_all_skip [OF assms, of "[96, 96]" _ pre_tpl "js ''`**'' @ [10]"]
    by simp
  show ?thesis
    using m t by (simp add: fence_re_def)
qed

lemma nested_spans:
  assumes "\<forall>c\<in>set x. \<not> is_line_terminator c \<and> c \<noteq> 42 \<and> c \<noteq> 96"
  shows "html_of (js ''**`'' @ x @ js ''`**'' @ [10]) =
         js ''<strong><code>'' @ x @ js ''</code></strong><br>''"
proof -
  have x96: "96 \<notin> set x" and x10: "10 \<notin> set x"
    using assms by (auto simp: is_line_terminator_def)
  have f: "replace_all fence_re pre_tpl (js ''**`'' @ x @ js ''`**'' @ [10]) =
           js ''**`'' @ x @ js ''`**'' @ [10]"
    using fence_skips_nested [OF x96] .
  have st: "\<not> sublist (js ''**'') ((96 # x @ [96]) @ js ''*'')"
  proof -
    have "42 \<notin> set (96 # x @ [96])"
      using assms by auto
    from no_stars [OF this] show ?thesis by simp
  qed
  have lt: "\<forall>c\<in>set (96 # x @ [96]). \<not> is_line_terminator c"
    using assms by (simp add: is_line_terminator_def)
  have b: "replace_all bold_re strong_tpl (js ''**`'' @ x @ js ''`**'' @ [10])
           = js ''<strong>`'' @ x @ js ''`</strong>'' @ [10]"
    using bold_span [OF lt st, of "[10]"] by (simp add: bold_re_def)
  have c1: "replace_all code_re code_tpl (js ''`'' @ x @ js ''`'' @ js ''</strong>'' @ [10])
           = js ''<code>'' @ x @ js ''</code>'' @ js ''</strong>'' @ [10]"
    using code_span [of x "js ''</strong>'' @ [10]"] assms
    by (simp add: code_re_def is_line_terminator_def)
  have c: "replace_all code_re code_tpl (js ''<strong>`'' @ x @ js ''`</strong>'' @ [10])
           = js ''<strong><code>'' @ x @ js ''</code></strong>'' @ [10]"
    using replace_all_skip [of 96 "js ''<strong>''" "[]" "[Lazy Dot, Lit [96]]" code_tpl
        "js ''`'' @ x @ js ''`'' @ js ''</strong>'' @ [10]"] c1
    by (simp add: code_re_def)
  show ?thesis
    unfolding html_of_def f b c replace_newline
    using x10 by (simp add: newline_free)
qed

text \<open>
  C5 (as amended). The claim reads: for every input, every span \<open>**x**\<close> becomes
  \<open><strong>x</strong>\<close>, every span \<open>`x`\<close> becomes \<open><code>x</code>\<close>, every newline becomes
  \<open><br>\<close>, and the rules compose. The dot of the two span patterns does not match a line
  terminator, so a pair of delimiters with a line end between them is no span to the
  pattern. What holds: the formatter is the four replacements in the order fence, bold,
  code, newline, each on the result of the one before. The bold rule goes through its
  input from left to right: where the input starts with \<open>**\<close>, a text \<open>x\<close> without line
  terminator and \<open>**\<close>, this being the first pair of asterisks behind the opening one, it
  writes \<open><strong>x</strong>\<close> and goes on behind the closing pair; where the input does
  not start with \<open>**\<close>, a text without line terminator and \<open>**\<close>, it copies the first
  character and goes on behind it; at the end of the input it stops. The code rule does
  the same with one backquote in the place of the pair of asterisks, and \<open><code>\<close>. The
  newline rule replaces every newline by \<open><br>\<close> and nothing else. On a bold span around a
  code span followed by a newline all of them act, each on the output of the earlier
  ones.
\<close>

theorem rules_compose:
  "html_of s = replace_all newline_re br_tpl (replace_all code_re code_tpl
      (replace_all bold_re strong_tpl (replace_all fence_re pre_tpl s)))
   \<and> replace_all bold_re strong_tpl [] = []
   \<and> ((\<forall>a\<in>set x. \<not> is_line_terminator a) \<and> \<not> sublist (js ''**'') (x @ js ''*'') \<longrightarrow>
        replace_all bold_re strong_tpl (js ''**'' @ x @ js ''**'' @ rest) =
        js ''<strong>'' @ x @ js ''</strong>'' @ replace_all bold_re strong_tpl rest)
   \<and> (\<not> (\<exists>y r. c # cs = js ''**'' @ y @ js ''**'' @ r \<and> (\<forall>a\<in>set y. \<not> is_line_terminator a)) \<longrightarrow>
        replace_all bold_re strong_tpl (c # cs) = c # replace_all bold_re strong_tpl cs)
   \<and> replace_all code_re code_tpl [] = []
   \<and> ((\<forall>a\<in>set x. \<not> is_line_terminator a \<and> a \<noteq> 96) \<longrightarrow>
        replace_all code_re code_tpl (js ''`'' @ x @ js ''`'' @ rest) =
        js ''<code>'' @ x @ js ''</code>'' @ replace_all code_re code_tpl rest)
   \<and> (\<not> (\<exists>y r. c # cs = js ''`'' @ y @ js ''`'' @ r \<and> (\<forall>a\<in>set y. \<not> is_line_terminator a)) \<longrightarrow>
        replace_all code_re code_tpl (c # cs) = c # replace_all code_re code_tpl cs)
   \<and> replace_all newline_re br_tpl s = concat (map (\<lambda>a. if a = 10 then js ''<br>'' else [a]) s)
   \<and> ((\<forall>a\<in>set x. \<not> is_line_terminator a \<and> a \<noteq> 42 \<and> a \<noteq> 96) \<longrightarrow>
        html_of (js ''**`'' @ x @ js ''`**'' @ [10]) =
        js ''<strong><code>'' @ x @ js ''</code></strong><br>'')"
proof -
  have a: "html_of s = replace_all newline_re br_tpl (replace_all code_re code_tpl
      (replace_all bold_re strong_tpl (replace_all fence_re pre_tpl s)))"
    by (simp add: html_of_def)
  have b0: "replace_all bold_re strong_tpl [] = []"
    by (simp add: bold_re_def)
  have b1: "(\<forall>a\<in>set x. \<not> is_line_terminator a) \<and> \<not> sublist (js ''**'') (x @ js ''*'') \<longrightarrow>
        replace_all bold_re strong_tpl (js ''**'' @ x @ js ''**'' @ rest) =
        js ''<strong>'' @ x @ js ''</strong>'' @ replace_all bold_re strong_tpl rest"
    using bold_span [of x rest] by blast
  have b2: "\<not> (\<exists>y r. c # cs = js ''**'' @ y @ js ''**'' @ r \<and> (\<forall>a\<in>set y. \<not> is_line_terminator a)) \<longrightarrow>
        replace_all bold_re strong_tpl (c # cs) = c # replace_all bold_re strong_tpl cs"
    using bold_copy [of c cs] by blast
  have c0: "replace_all code_re code_tpl [] = []"
    by (simp add: code_re_def)
  have c1: "(\<forall>a\<in>set x. \<not> is_line_terminator a \<and> a \<noteq> 96) \<longrightarrow>
        replace_all code_re code_tpl (js ''`'' @ x @ js ''`'' @ rest) =
        js ''<code>'' @ x @ js ''</code>'' @ replace_all code_re code_tpl rest"
    using code_span [of x rest] by blast
  have c2: "\<not> (\<exists>y r. c # cs = js ''`'' @ y @ js ''`'' @ r \<and> (\<forall>a\<in>set y. \<not> is_line_terminator a)) \<longrightarrow>
        replace_all code_re code_tpl (c # cs) = c # replace_all code_re code_tpl cs"
    using code_copy [of c cs] by blast
  have e: "(\<forall>a\<in>set x. \<not> is_line_terminator a \<and> a \<noteq> 42 \<and> a \<noteq> 96) \<longrightarrow>
        html_of (js ''**`'' @ x @ js ''`**'' @ [10]) =
        js ''<strong><code>'' @ x @ js ''</code></strong><br>''"
    using nested_spans [of x] by blast
  show ?thesis
    by (intro conjI a b0 b1 b2 c0 c1 c2 e replace_newline)
qed

text \<open>The theorem on a span, on an opening pair followed by a line end before the next
  pair (its first asterisk is copied), the same for the backquote, on the whole formatter
  for that input, and on nested spans.\<close>

theorem rules_compose_witness:
  "replace_all bold_re strong_tpl (js ''** c**'') = js ''<strong> c</strong>''
   \<and> replace_all bold_re strong_tpl (js ''**a'' @ [10] @ js ''b** c**'') =
       42 # replace_all bold_re strong_tpl (js ''*a'' @ [10] @ js ''b** c**'')
   \<and> replace_all code_re code_tpl (js ''` c`'') = js ''<code> c</code>''
   \<and> replace_all code_re code_tpl (js ''`a'' @ [10] @ js ''b` c`'') =
       96 # replace_all code_re code_tpl (js ''a'' @ [10] @ js ''b` c`'')
   \<and> html_of (js ''**a'' @ [10] @ js ''b** c**'') = js ''**a<br>b<strong> c</strong>''
   \<and> html_of (js ''**`x`**'' @ [10]) = js ''<strong><code>x</code></strong><br>''"
proof -
  have x: "(\<forall>a\<in>set (js '' c''). \<not> is_line_terminator a) \<and> \<not> sublist (js ''**'') (js '' c'' @ js ''*'')"
    "\<forall>a\<in>set (js '' c''). \<not> is_line_terminator a \<and> a \<noteq> 96"
    "\<forall>a\<in>set (js ''x''). \<not> is_line_terminator a \<and> a \<noteq> 42 \<and> a \<noteq> 96"
    by (simp_all add: is_line_terminator_def sublist_Cons_right)
  have nb: "\<not> (\<exists>y r. 42 # js ''*a'' @ [10] @ js ''b** c**'' = js ''**'' @ y @ js ''**'' @ r \<and>
                (\<forall>a\<in>set y. \<not> is_line_terminator a))"
    by (simp add: run_then_stars is_line_terminator_def)
  have nc: "\<not> (\<exists>y r. 96 # js ''a'' @ [10] @ js ''b` c`'' = js ''`'' @ y @ js ''`'' @ r \<and>
                (\<forall>a\<in>set y. \<not> is_line_terminator a))"
    by (simp add: run_then_tick is_line_terminator_def)
  note t = rules_compose [of "js ''**a'' @ [10] @ js ''b** c**''" "js '' c''" "[]" 42
      "js ''*a'' @ [10] @ js ''b** c**''"]
  note u = rules_compose [of "[]" "js '' c''" "[]" 96 "js ''a'' @ [10] @ js ''b` c`''"]
  note v = rules_compose [of "[]" "js ''x''" "[]" 96 "[]"]
  have 1: "replace_all bold_re strong_tpl (js ''** c**'') = js ''<strong> c</strong>''"
    using t x(1) by simp
  have 2: "replace_all bold_re strong_tpl (js ''**a'' @ [10] @ js ''b** c**'') =
       42 # replace_all bold_re strong_tpl (js ''*a'' @ [10] @ js ''b** c**'')"
    using t nb by simp
  have 3: "replace_all code_re code_tpl (js ''` c`'') = js ''<code> c</code>''"
    using u x(2) by simp
  have 4: "replace_all code_re code_tpl (js ''`a'' @ [10] @ js ''b` c`'') =
       96 # replace_all code_re code_tpl (js ''a'' @ [10] @ js ''b` c`'')"
    using u nc by simp
  have 5: "html_of (js ''**a'' @ [10] @ js ''b** c**'') = js ''**a<br>b<strong> c</strong>''"
    by (simp add: html_of_def re_defs is_line_terminator_def)
  have 6: "html_of (js ''**`x`**'' @ [10]) = js ''<strong><code>x</code></strong><br>''"
    using v x(3) by simp
  show ?thesis
    by (intro conjI 1 2 3 4 5 6)
qed

text \<open>The claim as stated fails on a pair of delimiters with a line end between them: the
  delimiters stay, and only the newline is rewritten.\<close>

theorem span_across_lines_counterexample:
  "html_of (js ''**a'' @ [10] @ js ''b**'') = js ''**a<br>b**'' \<and>
   html_of (js ''**a'' @ [10] @ js ''b**'') \<noteq> js ''<strong>a<br>b</strong>'' \<and>
   html_of (js ''`a'' @ [10] @ js ''b`'') = js ''`a<br>b`''"
  by (simp add: html_of_def re_defs is_word_def is_line_terminator_def)

text \<open>
  C10. The newline rule runs last, on the whole string, so no newline is left anywhere
  in the formatter's output, for any input; and in a fenced block (a tag of word
  characters, a newline, a body without backquote or asterisk) the block's content is the
  body with each of its newlines turned into \<open><br>\<close>.
\<close>

theorem newlines_in_pre:
  "10 \<notin> set (html_of s) \<and>
   ((\<forall>c\<in>set w. is_word c) \<and> 96 \<notin> set b \<and> 42 \<notin> set b \<longrightarrow>
      html_of (js ''```'' @ w @ [10] @ b @ js ''```'') =
      js ''<pre>'' @ concat (map (\<lambda>c. if c = 10 then js ''<br>'' else [c]) b) @ js ''</pre>'')"
proof -
  have "html_of (js ''```'' @ w @ [10] @ b @ js ''```'') =
      js ''<pre>'' @ concat (map (\<lambda>c. if c = 10 then js ''<br>'' else [c]) b) @ js ''</pre>''"
    if h: "(\<forall>c\<in>set w. is_word c) \<and> 96 \<notin> set b \<and> 42 \<notin> set b"
  proof -
    have f: "replace_all fence_re pre_tpl (js ''```'' @ w @ [10] @ b @ js ''```'')
             = js ''<pre>'' @ b @ js ''</pre>''"
      using fence_block [of w b "[]"] h by (simp add: fence_re_def)
    have bo: "replace_all bold_re strong_tpl (js ''<pre>'' @ b @ js ''</pre>'') =
              js ''<pre>'' @ b @ js ''</pre>''"
      by (rule bold_none) (use h in simp)
    have co: "replace_all code_re code_tpl (js ''<pre>'' @ b @ js ''</pre>'') =
              js ''<pre>'' @ b @ js ''</pre>''"
      by (rule code_none) (use h in simp)
    show ?thesis
      unfolding html_of_def f bo co replace_newline by simp
  qed
  then show ?thesis
    using html_no_newline [of s] by blast
qed

text \<open>The theorem on a block with the tag \<open>js\<close> and a body of two lines.\<close>

theorem newlines_in_pre_witness:
  "10 \<notin> set (html_of (js ''```js'' @ [10] @ js ''a'' @ [10] @ js ''b```'')) \<and>
   html_of (js ''```js'' @ [10] @ js ''a'' @ [10] @ js ''b```'') = js ''<pre>a<br>b</pre>''"
  using newlines_in_pre [of "js ''```js'' @ [10] @ js ''a'' @ [10] @ js ''b```''" "js ''js''"
      "js ''a'' @ [10] @ js ''b''"]
  by (simp add: is_word_def)

section \<open>What the chat functions do to the page\<close>

lemma adicionar_node:
  "adicionarMensagemChat parse r c s =
     s\<lparr>next_id := Suc (next_id s), chatMessages := chatMessages s @ [message_node parse (next_id s) r c]\<rparr>"
  by (cases r)
     (simp_all add: adicionarMensagemChat_def message_node_def class_tokens_def is_ascii_ws_def Let_def)

lemma enviar_nonblank:
  assumes "trim (chatInput s) \<noteq> []"
  shows "enviarMensagem parse s =
     s\<lparr>next_id := Suc (Suc (next_id s)),
       chatInput := [],
       chatMessages := chatMessages s @
         [message_node parse (next_id s) User (trim (chatInput s)),
          message_node parse (Suc (next_id s)) Assistant typing_indicator],
       requests := requests s @
         [\<lparr>url = js ''/ai/chat'', http_method = js ''POST'',
           headers = [(js ''Content-Type'', js ''application/json'')],
           payload = JSON_stringify [(js ''mensagem'', trim (chatInput s))]\<rparr>]\<rparr>"
  using assms by (simp add: enviarMensagem_def adicionar_node Let_def)

lemma on_catch_nonempty:
  assumes "chatMessages s \<noteq> []"
  shows "on_catch parse e s =
     (None, s\<lparr>next_id := Suc (next_id s),
              chatMessages := butlast (chatMessages s) @ [message_node parse (next_id s) Assistant connection_error],
              console := console s @ [(js ''Erro no chat:'', e)]\<rparr>)"
  using assms by (simp add: on_catch_def remove_last_child_def adicionar_node Let_def)

lemma on_data_cases:
  assumes "chatMessages s \<noteq> []"
  shows "(\<exists>c. on_data parse data s =
            (None, s\<lparr>next_id := Suc (next_id s),
                     chatMessages := butlast (chatMessages s) @ [message_node parse (next_id s) Assistant c]\<rparr>))
       \<or> (\<exists>e. on_data parse data s = (Some e, s\<lparr>chatMessages := butlast (chatMessages s)\<rparr>))"
  using assms
  by (auto simp: on_data_def remove_last_child_def adicionar_node
           split: sum.splits jsval.splits option.splits)

lemma quote_units_plain:
  assumes "\<forall>c\<in>set t. 32 \<le> c \<and> c \<noteq> 34 \<and> c \<noteq> 92 \<and> \<not> is_high_surrogate c \<and> \<not> is_low_surrogate c"
  shows "quote_units t = t"
  using assms by (induction t rule: quote_units.induct) (auto simp: escape_unit_def)

lemma html_connection_error: "html_of connection_error = connection_error"
  by (rule html_plain) (simp_all add: connection_error_def cross_mark_def)

lemma html_typing_indicator: "html_of typing_indicator = typing_indicator"
  by (rule html_plain) (simp_all add: typing_indicator_def)

lemma assistant_only: "has_class (js ''assistant'') (message_node parse i r c) \<longleftrightarrow> r = Assistant"
  by (cases r) (simp_all add: has_class_def message_node_def)

lemma nid_message_node: "nid (message_node parse i r c) = i"
  by (simp add: message_node_def)

text \<open>The entries of the transcript have identities below the page's counter, and every
  function of the chat keeps it so.\<close>

lemma ids_enviar:
  assumes "\<forall>m\<in>set (chatMessages s). nid m < next_id s"
  shows "\<forall>m\<in>set (chatMessages (enviarMensagem parse s)). nid m < next_id (enviarMensagem parse s)"
proof (cases "trim (chatInput s) = []")
  case True
  then show ?thesis using assms by (simp add: enviarMensagem_def)
next
  case False
  then show ?thesis
    using assms by (auto simp: enviar_nonblank nid_message_node)
qed

lemma ids_on_catch:
  assumes "\<forall>m\<in>set (chatMessages s). nid m < next_id s"
  shows "\<forall>m\<in>set (chatMessages (snd (on_catch parse e s))). nid m < next_id (snd (on_catch parse e s))"
proof (cases "chatMessages s = []")
  case True
  then show ?thesis using assms by (simp add: on_catch_def remove_last_child_def)
next
  case False
  have b: "\<forall>m\<in>set (butlast (chatMessages s)). nid m < next_id s"
    using assms by (auto dest: in_set_butlastD)
  show ?thesis
    using False b by (auto simp: on_catch_nonempty nid_message_node less_Suc_eq)
qed

lemma ids_on_data:
  assumes "\<forall>m\<in>set (chatMessages s). nid m < next_id s"
  shows "\<forall>m\<in>set (chatMessages (snd (on_data parse d s))). nid m < next_id (snd (on_data parse d s))"
proof (cases "chatMessages s = []")
  case True
  then show ?thesis using assms by (simp add: on_data_def remove_last_child_def)
next
  case False
  have b: "\<forall>m\<in>set (butlast (chatMessages s)). nid m < next_id s"
    using assms by (auto dest: in_set_butlastD)
  from on_data_cases [OF False, where data = d and parse = parse] show ?thesis
    using b by (auto simp: nid_message_node less_Suc_eq)
qed

lemma ids_settle:
  assumes "\<forall>m\<in>set (chatMessages s). nid m < next_id s"
  shows "\<forall>m\<in>set (chatMessages (snd (settle parse out s))). nid m < next_id (snd (settle parse out s))"
proof (cases out)
  case (Rejected e)
  then show ?thesis using ids_on_catch [OF assms] by simp
next
  case (Malformed e)
  then show ?thesis using ids_on_catch [OF assms] by simp
next
  case (Parsed d)
  show ?thesis
  proof (cases "fst (on_data parse d s)")
    case None
    then have "settle parse out s = (None, snd (on_data parse d s))"
      using Parsed by (cases "on_data parse d s") simp
    then show ?thesis using ids_on_data [OF assms, where d = d and parse = parse] by simp
  next
    case (Some e)
    then have "settle parse out s = on_catch parse e (snd (on_data parse d s))"
      using Parsed by (cases "on_data parse d s") simp
    then show ?thesis using ids_on_catch [OF ids_on_data [OF assms, where d = d and parse = parse], where e = e] by simp
  qed
qed

text \<open>The example pages.\<close>

lemma trim_hi: "trim (js ''hi'') = js ''hi''"
  by (simp add: trim_def is_white_space_def is_line_terminator_def)

lemma hi_sent_eq:
  "hi_sent =
     \<lparr>next_id = 2, chatInput = [],
      chatMessages = [message_node example_parse 0 User (js ''hi''),
                      message_node example_parse 1 Assistant typing_indicator],
      elements = [],
      requests = [\<lparr>url = js ''/ai/chat'', http_method = js ''POST'',
                   headers = [(js ''Content-Type'', js ''application/json'')],
                   payload = JSON_stringify [(js ''mensagem'', js ''hi'')]\<rparr>],
      console = [], timers = []\<rparr>"
proof -
  have "trim (chatInput (empty_page\<lparr>chatInput := js ''hi''\<rparr>)) \<noteq> []"
    using trim_hi by simp
  from enviar_nonblank [OF this, where parse = example_parse] show ?thesis
    using trim_hi by (simp add: hi_sent_def empty_page_def)
qed

lemma parse_connection_error: "example_parse (js ''<p>'' @ connection_error @ js ''</p>'') = []"
  by (simp add: example_parse_def typing_indicator_def connection_error_def cross_mark_def injected_def)

lemma trim_ok: "trim (js '' ok '') = js ''ok''"
  by (simp add: trim_def is_white_space_def is_line_terminator_def)

section \<open>Sending\<close>

text \<open>
  C6. When the value of the input is empty after trimming, \<open>enviarMensagem\<close> leaves the page
  as it is: the transcript has the length it had, the input holds the value it held
  (white space included), and no request is issued.
\<close>

theorem blank_input_noop:
  assumes "trim (chatInput s) = []"
  shows "enviarMensagem parse s = s \<and>
         length (chatMessages (enviarMensagem parse s)) = length (chatMessages s) \<and>
         chatInput (enviarMensagem parse s) = chatInput s \<and>
         requests (enviarMensagem parse s) = requests s"
  using assms by (simp add: enviarMensagem_def)

text \<open>The theorem on an input of spaces, a tab, a newline and a no-break space.\<close>

theorem blank_input_noop_witness:
  "trim (chatInput (empty_page\<lparr>chatInput := [32, 9, 10, 160, 32]\<rparr>)) = [] \<and>
   enviarMensagem example_parse (empty_page\<lparr>chatInput := [32, 9, 10, 160, 32]\<rparr>) = empty_page\<lparr>chatInput := [32, 9, 10, 160, 32]\<rparr> \<and>
   chatInput (enviarMensagem example_parse (empty_page\<lparr>chatInput := [32, 9, 10, 160, 32]\<rparr>)) = [32, 9, 10, 160, 32] \<and>
   requests (enviarMensagem example_parse (empty_page\<lparr>chatInput := [32, 9, 10, 160, 32]\<rparr>)) = []"
proof -
  have t: "trim (chatInput (empty_page\<lparr>chatInput := [32, 9, 10, 160, 32]\<rparr>)) = []"
    by (simp add: trim_def is_white_space_def is_line_terminator_def)
  show ?thesis
    using t blank_input_noop [OF t, where parse = example_parse] by (simp add: empty_page_def)
qed

text \<open>
  C7. When \<open>fetch\<close> rejects with a reason \<open>e\<close>, or the body is not JSON and \<open>response.json()\<close>
  rejects with \<open>e\<close>, the handler removes the last entry of the transcript (which has one:
  the placeholder), appends one assistant entry whose markup is the fixed text
  \<open>connection_error\<close> in a paragraph, the same for every \<open>e\<close>, and writes \<open>e\<close> to the console
  and nowhere else: nothing but the transcript, the console and the counter of
  identities changes.
\<close>

theorem transport_failure:
  assumes "chatMessages s \<noteq> []"
  shows "settle parse (Rejected e) s =
           (None, s\<lparr>next_id := Suc (next_id s),
                    chatMessages := butlast (chatMessages s) @
                      [\<lparr>nid = next_id s, classList = [js ''message'', js ''assistant''],
                        content = Html (js ''<p>'' @ connection_error @ js ''</p>''),
                        inner = parse (js ''<p>'' @ connection_error @ js ''</p>'')\<rparr>],
                    console := console s @ [(js ''Erro no chat:'', e)]\<rparr>)
       \<and> settle parse (Malformed e) s = settle parse (Rejected e) s"
  using assms
  by (simp add: on_catch_nonempty message_node_def html_connection_error)

text \<open>The theorem on the page where \<open>hi\<close> was just sent, for a rejected request and for
  a body that is not JSON.\<close>

theorem transport_failure_witness:
  "chatMessages hi_sent \<noteq> [] \<and>
   chatMessages (snd (settle example_parse (Rejected (Failure (js ''Failed to fetch''))) hi_sent)) =
     [message_node example_parse 0 User (js ''hi''),
      \<lparr>nid = 2, classList = [js ''message'', js ''assistant''],
       content = Html (js ''<p>'' @ connection_error @ js ''</p>''), inner = []\<rparr>] \<and>
   console (snd (settle example_parse (Malformed (Failure (js ''Unexpected token''))) hi_sent)) =
     [(js ''Erro no chat:'', Failure (js ''Unexpected token''))]"
proof -
  have n: "chatMessages hi_sent \<noteq> []"
    by (simp add: hi_sent_eq)
  show ?thesis
    using n transport_failure [OF n, where e = "Failure (js ''Failed to fetch'')" and parse = example_parse]
      transport_failure [OF n, where e = "Failure (js ''Unexpected token'')" and parse = example_parse]
      parse_connection_error
    by (simp add: hi_sent_eq)
qed

text \<open>
  C1 (as amended). The claim reads: the user entry contains the input string. The
  formatter runs on the user's text as on the assistant's, and the text is trimmed first,
  so the entry holds the rendering of the trimmed text. What holds, for an input whose
  trimmed value \<open>t\<close> is not empty, on a page whose transcript entries were created before
  (their identities are below the counter): the send appends exactly the user entry,
  whose markup is the rendering of \<open>t\<close> in a paragraph (it is \<open>t\<close> itself when \<open>t\<close> has no
  newline, asterisk or backquote), and the placeholder behind it. When the request is
  rejected or the body is not JSON, the transcript ends as the one before the send, the
  user entry and one assistant entry with the connection error; when the answer is an
  object with a truthy \<open>sucesso\<close> and a string \<open>resposta\<close>, as that with one assistant entry
  for \<open>resposta\<close>; when it is an object with a \<open>sucesso\<close> that is not truthy and a string
  \<open>erro\<close>, as that with one assistant entry for the cross mark and \<open>erro\<close>; and so for
  every answer on which the \<open>then\<close> handler does not throw. On an answer on which it
  throws, the transcript ends as the one before the send and one assistant entry with
  the connection error: the user entry is gone. However the request ends, the chain ends
  without an exception, the placeholder is not in the transcript any more, exactly one
  assistant entry created since the send is in it, and the entries that were there before
  the send still come first.
\<close>

theorem send_and_settle:
  assumes "trim (chatInput s) \<noteq> []"
      and "\<forall>m\<in>set (chatMessages s). nid m < next_id s"
  shows "chatMessages (enviarMensagem parse s) =
           chatMessages s @
             [message_node parse (next_id s) User (trim (chatInput s)),
              message_node parse (Suc (next_id s)) Assistant typing_indicator]
       \<and> (10 \<notin> set (trim (chatInput s)) \<and> 42 \<notin> set (trim (chatInput s)) \<and> 96 \<notin> set (trim (chatInput s)) \<longrightarrow>
            content (message_node parse (next_id s) User (trim (chatInput s))) =
            Html (js ''<p>'' @ trim (chatInput s) @ js ''</p>''))
       \<and> chatMessages (snd (settle parse (Rejected e) (enviarMensagem parse s))) =
           chatMessages s @
             [message_node parse (next_id s) User (trim (chatInput s)),
              message_node parse (Suc (Suc (next_id s))) Assistant connection_error]
       \<and> chatMessages (snd (settle parse (Malformed e) (enviarMensagem parse s))) =
           chatMessages s @
             [message_node parse (next_id s) User (trim (chatInput s)),
              message_node parse (Suc (Suc (next_id s))) Assistant connection_error]
       \<and> (map_of kvs (js ''sucesso'') = Some v \<and> truthy v \<and>
          map_of kvs (js ''resposta'') = Some (JStr r) \<longrightarrow>
            chatMessages (snd (settle parse (Parsed (JObj kvs)) (enviarMensagem parse s))) =
              chatMessages s @
                [message_node parse (next_id s) User (trim (chatInput s)),
                 message_node parse (Suc (Suc (next_id s))) Assistant r])
       \<and> (map_of kvs (js ''sucesso'') = Some v \<and> \<not> truthy v \<and>
          map_of kvs (js ''erro'') = Some (JStr r) \<longrightarrow>
            chatMessages (snd (settle parse (Parsed (JObj kvs)) (enviarMensagem parse s))) =
              chatMessages s @
                [message_node parse (next_id s) User (trim (chatInput s)),
                 message_node parse (Suc (Suc (next_id s))) Assistant (cross_mark @ r)])
       \<and> (fst (on_data parse data (enviarMensagem parse s)) = None \<longrightarrow>
            (\<exists>c. chatMessages (snd (settle parse (Parsed data) (enviarMensagem parse s))) =
                   chatMessages s @
                     [message_node parse (next_id s) User (trim (chatInput s)),
                      message_node parse (Suc (Suc (next_id s))) Assistant c]))
       \<and> (fst (on_data parse data (enviarMensagem parse s)) \<noteq> None \<longrightarrow>
            chatMessages (snd (settle parse (Parsed data) (enviarMensagem parse s))) =
              chatMessages s @
                [message_node parse (Suc (Suc (next_id s))) Assistant connection_error])
       \<and> fst (settle parse out (enviarMensagem parse s)) = None
       \<and> Suc (next_id s) \<notin> nid ` set (chatMessages (snd (settle parse out (enviarMensagem parse s))))
       \<and> (\<exists>c. filter (\<lambda>m. next_id s \<le> nid m \<and> has_class (js ''assistant'') m)
                 (chatMessages (snd (settle parse out (enviarMensagem parse s)))) =
               [message_node parse (Suc (Suc (next_id s))) Assistant c])
       \<and> prefix (chatMessages s) (chatMessages (snd (settle parse out (enviarMensagem parse s))))"
proof -
  define n where "n = next_id s"
  define old where "old = chatMessages s"
  define u where "u = message_node parse n User (trim (chatInput s))"
  define ph where "ph = message_node parse (Suc n) Assistant typing_indicator"
  define s1 where "s1 = enviarMensagem parse s"
  have sent: "chatMessages s1 = old @ [u, ph]" and nx: "next_id s1 = Suc (Suc n)"
    using assms(1) by (simp_all add: s1_def enviar_nonblank old_def u_def ph_def n_def)
  have ne: "chatMessages s1 \<noteq> []"
    using sent by simp
  have oldids: "\<forall>m\<in>set old. nid m < n"
    using assms(2) by (simp add: old_def n_def)
  have keep: "filter (\<lambda>m. n \<le> nid m \<and> has_class (js ''assistant'') m) old = []"
    using oldids by (auto simp: filter_empty_conv)
  have nou: "\<not> has_class (js ''assistant'') u"
    using assistant_only [where i = n and r = User and c = "trim (chatInput s)" and parse = parse]
    by (simp add: u_def)
  have plain: "10 \<notin> set (trim (chatInput s)) \<and> 42 \<notin> set (trim (chatInput s)) \<and> 96 \<notin> set (trim (chatInput s)) \<longrightarrow>
            content (message_node parse (next_id s) User (trim (chatInput s))) =
            Html (js ''<p>'' @ trim (chatInput s) @ js ''</p>'')"
    by (simp add: message_node_def html_plain)
  have bl: "butlast (chatMessages s1) = old @ [u]"
    by (simp add: sent butlast_append)
  have caught: "on_catch parse x s1 =
      (None, s1\<lparr>next_id := Suc (Suc (Suc n)),
               chatMessages := old @ [u, message_node parse (Suc (Suc n)) Assistant connection_error],
               console := console s1 @ [(js ''Erro no chat:'', x)]\<rparr>)" for x
    using ne by (simp add: on_catch_nonempty bl nx)
  have rej: "chatMessages (snd (settle parse (Rejected e) s1)) =
      old @ [u, message_node parse (Suc (Suc n)) Assistant connection_error]"
    by (simp add: caught)
  have mal: "chatMessages (snd (settle parse (Malformed e) s1)) =
      old @ [u, message_node parse (Suc (Suc n)) Assistant connection_error]"
    by (simp add: caught)
  have data_cases: "(\<exists>c. on_data parse d s1 =
            (None, s1\<lparr>next_id := Suc (Suc (Suc n)),
                     chatMessages := old @ [u, message_node parse (Suc (Suc n)) Assistant c]\<rparr>))
       \<or> (\<exists>x. on_data parse d s1 = (Some x, s1\<lparr>chatMessages := old @ [u]\<rparr>))" for d
    using on_data_cases [OF ne, where data = d and parse = parse] by (simp add: bl nx)
  have thrown: "settle parse (Parsed d) s1 =
      (None, s1\<lparr>next_id := Suc (Suc (Suc n)),
               chatMessages := old @ [message_node parse (Suc (Suc n)) Assistant connection_error],
               console := console s1 @ [(js ''Erro no chat:'', x)]\<rparr>)"
    if "on_data parse d s1 = (Some x, s1\<lparr>chatMessages := old @ [u]\<rparr>)" for d x
    using that by (simp add: on_catch_nonempty nx)
  have good: "fst (on_data parse data s1) = None \<longrightarrow>
      (\<exists>c. chatMessages (snd (settle parse (Parsed data) s1)) =
             old @ [u, message_node parse (Suc (Suc n)) Assistant c])"
    using data_cases [of data] by auto
  have bad: "fst (on_data parse data s1) \<noteq> None \<longrightarrow>
      chatMessages (snd (settle parse (Parsed data) s1)) =
        old @ [message_node parse (Suc (Suc n)) Assistant connection_error]"
    using data_cases [of data] thrown [of data] by auto
  have yes: "map_of kvs (js ''sucesso'') = Some v \<and> truthy v \<and>
          map_of kvs (js ''resposta'') = Some (JStr r) \<longrightarrow>
            chatMessages (snd (settle parse (Parsed (JObj kvs)) s1)) =
              old @ [u, message_node parse (Suc (Suc n)) Assistant r]"
    using ne by (simp add: on_data_def remove_last_child_def adicionar_node bl nx)
  have no: "map_of kvs (js ''sucesso'') = Some v \<and> \<not> truthy v \<and>
          map_of kvs (js ''erro'') = Some (JStr r) \<longrightarrow>
            chatMessages (snd (settle parse (Parsed (JObj kvs)) s1)) =
              old @ [u, message_node parse (Suc (Suc n)) Assistant (cross_mark @ r)]"
    using ne by (simp add: on_data_def remove_last_child_def adicionar_node bl nx)
  have fin: "\<exists>c. fst (settle parse out s1) = None \<and>
                 (chatMessages (snd (settle parse out s1)) = old @ [u, message_node parse (Suc (Suc n)) Assistant c]
                  \<or> chatMessages (snd (settle parse out s1)) = old @ [message_node parse (Suc (Suc n)) Assistant c])"
  proof (cases out)
    case (Rejected x)
    then show ?thesis by (auto simp: caught)
  next
    case (Malformed x)
    then show ?thesis by (auto simp: caught)
  next
    case (Parsed d)
    from data_cases [of d] show ?thesis
    proof
      assume "\<exists>c. on_data parse d s1 =
            (None, s1\<lparr>next_id := Suc (Suc (Suc n)),
                     chatMessages := old @ [u, message_node parse (Suc (Suc n)) Assistant c]\<rparr>)"
      then show ?thesis using Parsed by auto
    next
      assume "\<exists>x. on_data parse d s1 = (Some x, s1\<lparr>chatMessages := old @ [u]\<rparr>)"
      then obtain x where "on_data parse d s1 = (Some x, s1\<lparr>chatMessages := old @ [u]\<rparr>)"
        by blast
      from thrown [OF this]
      have "fst (settle parse out s1) = None \<and>
            chatMessages (snd (settle parse out s1)) =
              old @ [message_node parse (Suc (Suc n)) Assistant connection_error]"
        unfolding Parsed by (simp del: settle.simps)
      then show ?thesis by blast
    qed
  qed
  then obtain c where r1: "fst (settle parse out s1) = None"
    and shape: "chatMessages (snd (settle parse out s1)) = old @ [u, message_node parse (Suc (Suc n)) Assistant c]
                  \<or> chatMessages (snd (settle parse out s1)) = old @ [message_node parse (Suc (Suc n)) Assistant c]"
    by blast
  have r2: "Suc n \<notin> nid ` set (chatMessages (snd (settle parse out s1)))"
  proof
    assume "Suc n \<in> nid ` set (chatMessages (snd (settle parse out s1)))"
    then obtain m where m: "m \<in> set (chatMessages (snd (settle parse out s1)))" "nid m = Suc n"
      by auto
    from shape m(1) have "m \<in> set old \<or> m = u \<or> m = message_node parse (Suc (Suc n)) Assistant c"
      by auto
    then show False
      using m(2) oldids by (auto simp: u_def nid_message_node)
  qed
  have r3: "filter (\<lambda>m. n \<le> nid m \<and> has_class (js ''assistant'') m) (chatMessages (snd (settle parse out s1)))
            = [message_node parse (Suc (Suc n)) Assistant c]"
    using shape keep nou
      assistant_only [where i = "Suc (Suc n)" and r = Assistant and c = c and parse = parse]
    by (auto simp: nid_message_node)
  have r4: "prefix old (chatMessages (snd (settle parse out s1)))"
    using shape by auto
  show ?thesis
    using sent plain rej mal yes no good bad r1 r2 r3 r4
    unfolding s1_def n_def old_def u_def ph_def by blast
qed

text \<open>The theorem on the page \<open>greeted\<close>: the server answers \<open>oi\<close>, or reports the failure
  \<open>falhou\<close>, or the request is rejected, or the server answers \<open>null\<close>, on which the \<open>then\<close>
  handler throws.\<close>

theorem send_and_settle_witness:
  "trim (chatInput greeted) \<noteq> [] \<and>
   chatMessages (enviarMensagem example_parse greeted) =
     [message_node example_parse 0 Assistant (js ''Pronto''), message_node example_parse 1 User (js ''ok''),
      message_node example_parse 2 Assistant typing_indicator] \<and>
   content (message_node example_parse 1 User (js ''ok'')) = Html (js ''<p>ok</p>'') \<and>
   chatMessages (snd (settle example_parse
       (Parsed (JObj [(js ''sucesso'', JBool True), (js ''resposta'', JStr (js ''oi''))]))
       (enviarMensagem example_parse greeted))) =
     [message_node example_parse 0 Assistant (js ''Pronto''), message_node example_parse 1 User (js ''ok''),
      message_node example_parse 3 Assistant (js ''oi'')] \<and>
   chatMessages (snd (settle example_parse
       (Parsed (JObj [(js ''sucesso'', JBool False), (js ''erro'', JStr (js ''falhou''))]))
       (enviarMensagem example_parse greeted))) =
     [message_node example_parse 0 Assistant (js ''Pronto''), message_node example_parse 1 User (js ''ok''),
      message_node example_parse 3 Assistant (cross_mark @ js ''falhou'')] \<and>
   chatMessages (snd (settle example_parse (Rejected (Failure (js ''Failed to fetch'')))
       (enviarMensagem example_parse greeted))) =
     [message_node example_parse 0 Assistant (js ''Pronto''), message_node example_parse 1 User (js ''ok''),
      message_node example_parse 3 Assistant connection_error] \<and>
   fst (on_data example_parse JNull (enviarMensagem example_parse greeted)) \<noteq> None \<and>
   chatMessages (snd (settle example_parse (Parsed JNull) (enviarMensagem example_parse greeted))) =
     [message_node example_parse 0 Assistant (js ''Pronto''),
      message_node example_parse 3 Assistant connection_error] \<and>
   fst (settle example_parse (Parsed JNull) (enviarMensagem example_parse greeted)) = None \<and>
   2 \<notin> nid ` set (chatMessages (snd (settle example_parse (Parsed JNull) (enviarMensagem example_parse greeted))))"
proof -
  have t: "trim (chatInput greeted) \<noteq> []"
    using trim_ok by (simp add: greeted_def empty_page_def)
  have i: "\<forall>m\<in>set (chatMessages greeted). nid m < next_id greeted"
    by (simp add: greeted_def empty_page_def nid_message_node)
  have g: "next_id greeted = 1" "chatMessages greeted = [message_node example_parse 0 Assistant (js ''Pronto'')]"
     "trim (chatInput greeted) = js ''ok''"
    using trim_ok by (simp_all add: greeted_def empty_page_def)
  have ne: "chatMessages (enviarMensagem example_parse greeted) \<noteq> []"
    using t by (simp add: enviar_nonblank)
  have thr: "fst (on_data example_parse JNull (enviarMensagem example_parse greeted)) \<noteq> None"
    using ne by (simp add: on_data_def remove_last_child_def)
  show ?thesis
    using t thr
      send_and_settle [OF t i, where parse = example_parse
        and kvs = "[(js ''sucesso'', JBool True), (js ''resposta'', JStr (js ''oi''))]"
        and v = "JBool True" and r = "js ''oi''" and data = JNull and out = "Parsed JNull"
        and e = "Failure (js ''Failed to fetch'')"]
      send_and_settle [OF t i, where parse = example_parse
        and kvs = "[(js ''sucesso'', JBool False), (js ''erro'', JStr (js ''falhou''))]"
        and v = "JBool False" and r = "js ''falhou''" and data = JNull and out = "Parsed JNull"
        and e = "Failure (js ''Failed to fetch'')"]
    unfolding g
    by (simp add: numeral_2_eq_2 numeral_3_eq_3)
qed

text \<open>The claim as stated fails when the user types markup: the entry does not contain
  the string typed.\<close>

theorem user_markup_counterexample:
  "map content (chatMessages (enviarMensagem example_parse (empty_page\<lparr>chatInput := js ''**a**''\<rparr>))) =
     [Html (js ''<p><strong>a</strong></p>''), Html (js ''<p>'' @ typing_indicator @ js ''</p>'')] \<and>
   \<not> sublist (js ''**a**'') (js ''<p><strong>a</strong></p>'')"
proof -
  have t: "trim (js ''**a**'') = js ''**a**''"
    by (simp add: trim_def is_white_space_def is_line_terminator_def)
  have h: "html_of (js ''**a**'') = js ''<strong>a</strong>''"
    by (simp add: html_of_def re_defs is_line_terminator_def)
  have a: "map content (chatMessages (enviarMensagem example_parse (empty_page\<lparr>chatInput := js ''**a**''\<rparr>))) =
     [Html (js ''<p><strong>a</strong></p>''), Html (js ''<p>'' @ typing_indicator @ js ''</p>'')]"
    using t h html_typing_indicator
    by (simp add: enviarMensagem_def adicionar_node message_node_def empty_page_def Let_def)
  have b: "\<not> sublist (js ''**a**'') (js ''<p><strong>a</strong></p>'')"
    by (simp add: sublist_Cons_right)
  show ?thesis using a b by blast
qed

section \<open>The request and the answer\<close>

text \<open>
  C2 (as amended). The claim reads: the body of the request is the JSON object with the
  one property \<open>message\<close>. The property the script sends is named \<open>mensagem\<close>. What holds,
  for an input whose trimmed value \<open>t\<close> is not empty: the send issues exactly one request,
  a \<open>POST\<close> to \<open>/ai/chat\<close> with the one header \<open>Content-Type: application/json\<close>, and its
  body is \<open>JSON.stringify\<close> of the object whose one property \<open>mensagem\<close> holds \<open>t\<close>; when \<open>t\<close>
  is made of characters that JSON text holds as they are (no control character, double
  quote, backslash or surrogate), the body is \<open>t\<close> between \<open>{"mensagem":"\<close> and \<open>"}\<close>.
\<close>

theorem request_sent:
  assumes "trim (chatInput s) \<noteq> []"
  shows \<open>requests (enviarMensagem parse s) =
           requests s @
             [\<lparr>url = js ''/ai/chat'', http_method = js ''POST'',
               headers = [(js ''Content-Type'', js ''application/json'')],
               payload = JSON_stringify [(js ''mensagem'', trim (chatInput s))]\<rparr>]
       \<and> ((\<forall>c\<in>set (trim (chatInput s)).
              32 \<le> c \<and> c \<noteq> 34 \<and> c \<noteq> 92 \<and> \<not> is_high_surrogate c \<and> \<not> is_low_surrogate c) \<longrightarrow>
            JSON_stringify [(js ''mensagem'', trim (chatInput s))] =
            js ''{"mensagem":"'' @ trim (chatInput s) @ js ''"}'')\<close>
proof -
  have k: "quote_units (js ''mensagem'') = js ''mensagem''"
    by (rule quote_units_plain) (simp add: is_high_surrogate_def is_low_surrogate_def)
  show ?thesis
    using assms k
    by (simp add: enviar_nonblank JSON_stringify_def QuoteJSONString_def quote_units_plain
             del: quote_units.simps)
qed

text \<open>The theorem on the page \<open>greeted\<close>.\<close>

theorem request_sent_witness:
  \<open>trim (chatInput greeted) \<noteq> [] \<and>
   requests (enviarMensagem example_parse greeted) =
     [\<lparr>url = js ''/ai/chat'', http_method = js ''POST'',
       headers = [(js ''Content-Type'', js ''application/json'')],
       payload = js ''{"mensagem":"ok"}''\<rparr>]\<close>
proof -
  have t: "trim (chatInput greeted) \<noteq> []"
    using trim_ok by (simp add: greeted_def empty_page_def)
  have g: "requests greeted = []" "trim (chatInput greeted) = js ''ok''"
    using trim_ok by (simp_all add: greeted_def empty_page_def)
  show ?thesis
    using request_sent [OF t, where parse = example_parse] t unfolding g
    by (simp add: is_high_surrogate_def is_low_surrogate_def)
qed

text \<open>The claim as stated fails on the input \<open>hi\<close>: the body is not the text of an object
  with the property \<open>message\<close>.\<close>

theorem request_key_counterexample:
  \<open>map payload (requests hi_sent) = [js ''{"mensagem":"hi"}''] \<and>
   map payload (requests hi_sent) \<noteq> [JSON_stringify [(js ''message'', js ''hi'')]] \<and>
   JSON_stringify [(js ''message'', js ''hi'')] = js ''{"message":"hi"}''\<close>
  by (simp add: hi_sent_eq JSON_stringify_def QuoteJSONString_def escape_unit_def
        is_high_surrogate_def is_low_surrogate_def)

text \<open>
  C3 (as amended). The claim reads: the answer has the properties \<open>success\<close>, \<open>response\<close>
  and \<open>error\<close>, and on failure the entry is the cross mark followed by the error text. The
  handler reads \<open>sucesso\<close>, \<open>resposta\<close> and \<open>erro\<close>, and every entry goes through the
  formatter. What holds, on a transcript that has a last entry: the handler removes that
  entry first, whatever value the answer is, and appends at most one entry; for an answer
  that is a JSON object, when \<open>sucesso\<close> is truthy and \<open>resposta\<close> is a string, it appends
  one assistant entry with the rendering of \<open>resposta\<close>; when \<open>sucesso\<close> is there and not
  truthy and \<open>erro\<close> is a string, it appends one assistant entry with the rendering of the
  cross mark, a space and \<open>erro\<close>, which is that text itself when \<open>erro\<close> has no newline,
  asterisk or backquote.
\<close>

theorem json_answer:
  assumes "chatMessages s \<noteq> []"
  shows "(map_of kvs (js ''sucesso'') = Some v \<and> truthy v \<and>
          map_of kvs (js ''resposta'') = Some (JStr r) \<longrightarrow>
            settle parse (Parsed (JObj kvs)) s =
              (None, s\<lparr>next_id := Suc (next_id s),
                       chatMessages := butlast (chatMessages s) @
                         [message_node parse (next_id s) Assistant r]\<rparr>))
       \<and> (map_of kvs (js ''sucesso'') = Some v \<and> \<not> truthy v \<and>
          map_of kvs (js ''erro'') = Some (JStr e) \<longrightarrow>
            settle parse (Parsed (JObj kvs)) s =
              (None, s\<lparr>next_id := Suc (next_id s),
                       chatMessages := butlast (chatMessages s) @
                         [message_node parse (next_id s) Assistant (cross_mark @ e)]\<rparr>))
       \<and> (10 \<notin> set e \<and> 42 \<notin> set e \<and> 96 \<notin> set e \<longrightarrow>
            content (message_node parse (next_id s) Assistant (cross_mark @ e)) =
            Html (js ''<p>'' @ cross_mark @ e @ js ''</p>''))
       \<and> ((\<exists>c. chatMessages (snd (on_data parse data s)) =
                 butlast (chatMessages s) @ [message_node parse (next_id s) Assistant c])
            \<or> chatMessages (snd (on_data parse data s)) = butlast (chatMessages s))"
proof -
  have a: "map_of kvs (js ''sucesso'') = Some v \<and> truthy v \<and>
          map_of kvs (js ''resposta'') = Some (JStr r) \<longrightarrow>
            settle parse (Parsed (JObj kvs)) s =
              (None, s\<lparr>next_id := Suc (next_id s),
                       chatMessages := butlast (chatMessages s) @
                         [message_node parse (next_id s) Assistant r]\<rparr>)"
    using assms by (simp add: on_data_def remove_last_child_def adicionar_node)
  have b: "map_of kvs (js ''sucesso'') = Some v \<and> \<not> truthy v \<and>
          map_of kvs (js ''erro'') = Some (JStr e) \<longrightarrow>
            settle parse (Parsed (JObj kvs)) s =
              (None, s\<lparr>next_id := Suc (next_id s),
                       chatMessages := butlast (chatMessages s) @
                         [message_node parse (next_id s) Assistant (cross_mark @ e)]\<rparr>)"
    using assms by (simp add: on_data_def remove_last_child_def adicionar_node)
  have c: "10 \<notin> set e \<and> 42 \<notin> set e \<and> 96 \<notin> set e \<longrightarrow>
            content (message_node parse (next_id s) Assistant (cross_mark @ e)) =
            Html (js ''<p>'' @ cross_mark @ e @ js ''</p>'')"
  proof
    assume "10 \<notin> set e \<and> 42 \<notin> set e \<and> 96 \<notin> set e"
    then have "html_of (cross_mark @ e) = cross_mark @ e"
      by (intro html_plain) (simp_all add: cross_mark_def)
    then show "content (message_node parse (next_id s) Assistant (cross_mark @ e)) =
            Html (js ''<p>'' @ cross_mark @ e @ js ''</p>'')"
      by (simp add: message_node_def)
  qed
  have d: "(\<exists>c. chatMessages (snd (on_data parse data s)) =
                 butlast (chatMessages s) @ [message_node parse (next_id s) Assistant c])
            \<or> chatMessages (snd (on_data parse data s)) = butlast (chatMessages s)"
    using on_data_cases [OF assms, where data = data and parse = parse] by auto
  show ?thesis
    by (intro conjI a b c d)
qed

text \<open>The theorem on the page where \<open>hi\<close> was just sent, for an answer of each kind.\<close>

theorem json_answer_witness:
  "chatMessages hi_sent \<noteq> [] \<and>
   chatMessages (snd (settle example_parse (Parsed (JObj [(js ''sucesso'', JBool True),
       (js ''resposta'', JStr (js ''**oi**''))])) hi_sent)) =
     [message_node example_parse 0 User (js ''hi''),
      \<lparr>nid = 2, classList = [js ''message'', js ''assistant''],
       content = Html (js ''<p><strong>oi</strong></p>''), inner = []\<rparr>] \<and>
   chatMessages (snd (settle example_parse (Parsed (JObj [(js ''sucesso'', JBool False),
       (js ''erro'', JStr (js ''falhou''))])) hi_sent)) =
     [message_node example_parse 0 User (js ''hi''),
      \<lparr>nid = 2, classList = [js ''message'', js ''assistant''],
       content = Html (js ''<p>'' @ [10060] @ js '' falhou</p>''), inner = []\<rparr>] \<and>
   chatMessages (snd (on_data example_parse JNull hi_sent)) = [message_node example_parse 0 User (js ''hi'')]"
proof -
  have n: "chatMessages hi_sent \<noteq> []"
    by (simp add: hi_sent_eq)
  have h: "html_of (js ''**oi**'') = js ''<strong>oi</strong>''"
    by (simp add: html_of_def re_defs is_line_terminator_def)
  have u: "chatMessages (snd (on_data example_parse JNull hi_sent)) = [message_node example_parse 0 User (js ''hi'')]"
    by (simp add: hi_sent_eq on_data_def remove_last_child_def)
  show ?thesis
    using n u
      json_answer [OF n, where parse = example_parse and data = JNull and kvs = "[(js ''sucesso'', JBool True), (js ''resposta'', JStr (js ''**oi**''))]"
        and v = "JBool True" and r = "js ''**oi**''" and e = "js ''falhou''"]
      json_answer [OF n, where parse = example_parse and data = JNull and kvs = "[(js ''sucesso'', JBool False), (js ''erro'', JStr (js ''falhou''))]"
        and v = "JBool False" and r = "[]" and e = "js ''falhou''"]
      h
    by (simp add: hi_sent_eq message_node_def cross_mark_def example_parse_def
          typing_indicator_def injected_def)
qed

text \<open>The claim as stated fails on an answer with the claim's own property names, which
  is shown as a failure without a text; and on a failure whose text holds markup.\<close>

theorem english_keys_counterexample:
  "map content (chatMessages (snd (settle example_parse (Parsed (JObj [(js ''success'', JBool True),
       (js ''response'', JStr (js ''hi''))])) hi_sent))) =
     [Html (js ''<p>hi</p>''), Html (js ''<p>'' @ [10060] @ js '' undefined</p>'')] \<and>
   map content (chatMessages (snd (settle example_parse (Parsed (JObj [(js ''success'', JBool True),
       (js ''response'', JStr (js ''hi''))])) hi_sent))) \<noteq>
     [Html (js ''<p>hi</p>''), Html (js ''<p>hi</p>'')] \<and>
   map content (chatMessages (snd (settle example_parse (Parsed (JObj [(js ''sucesso'', JBool False),
       (js ''erro'', JStr (js ''**x**''))])) hi_sent))) =
     [Html (js ''<p>hi</p>''), Html (js ''<p>'' @ [10060] @ js '' <strong>x</strong></p>'')]"
proof -
  have h: "html_of (js ''hi'') = js ''hi''"
    "html_of ([10060, 32] @ js ''undefined'') = [10060, 32] @ js ''undefined''"
    "html_of ([10060, 32] @ js ''**x**'') = [10060, 32] @ js ''<strong>x</strong>''"
    by (simp_all add: html_of_def re_defs is_line_terminator_def)
  show ?thesis
    using h
    by (simp add: hi_sent_eq on_data_def remove_last_child_def adicionar_node message_node_def
          cross_mark_def)
qed

section \<open>Removing the first element of a class\<close>

lemma prune_Some: "prune c f = Some f' \<Longrightarrow> count_trees c f' < count_trees c f"
  by (induction c f arbitrary: f' rule: prune.induct)
     (auto split: if_splits option.splits)

lemma prune_None: "prune c f = None \<Longrightarrow> count_trees c f = 0"
  by (induction c f rule: prune.induct) (auto split: if_splits option.splits)

lemma has_class_inner [simp]: "has_class c (n\<lparr>inner := f\<rparr>) = has_class c n"
  by (simp add: has_class_def)

lemma remove_first_Some: "remove_first c ns = Some ns' \<Longrightarrow> count_nodes c ns' < count_nodes c ns"
proof (induction c ns arbitrary: ns' rule: remove_first.induct)
  case (1 c)
  then show ?case by simp
next
  case (2 c n ns)
  show ?case
  proof (cases "has_class c n")
    case True
    then show ?thesis using 2 by auto
  next
    case False
    show ?thesis
    proof (cases "prune c (inner n)")
      case (Some f)
      then show ?thesis using 2 False prune_Some [OF Some] by auto
    next
      case None
      then obtain r where r: "remove_first c ns = Some r" "ns' = n # r"
        using 2(2) False by (auto split: option.splits)
      from 2(1) [OF False None r(1)] show ?thesis using r(2) by simp
    qed
  qed
qed

lemma remove_first_None: "remove_first c ns = None \<Longrightarrow> count_nodes c ns = 0"
  by (induction c ns rule: remove_first.induct)
     (auto split: if_splits option.splits dest: prune_None)

lemma remove_selected_same: "count_class c s = 0 \<Longrightarrow> remove_selected c s = s"
proof -
  assume z: "count_class c s = 0"
  have "remove_first c (chatMessages s) = None"
    using remove_first_Some [of c "chatMessages s"] z
    by (cases "remove_first c (chatMessages s)") (auto simp: count_class_def)
  moreover have "remove_first c (elements s) = None"
    using remove_first_Some [of c "elements s"] z
    by (cases "remove_first c (elements s)") (auto simp: count_class_def)
  ultimately show ?thesis by (simp add: remove_selected_def)
qed

lemma remove_selected_less:
  "0 < count_class c s \<Longrightarrow> count_class c (remove_selected c s) < count_class c s"
proof -
  assume p: "0 < count_class c s"
  show ?thesis
  proof (cases "remove_first c (chatMessages s)")
    case (Some ms)
    then show ?thesis
      using remove_first_Some [OF Some] by (simp add: remove_selected_def count_class_def)
  next
    case None
    note n = None
    show ?thesis
    proof (cases "remove_first c (elements s)")
      case (Some es)
      then show ?thesis
        using n remove_first_Some [OF Some] by (simp add: remove_selected_def count_class_def)
    next
      case None
      then show ?thesis
        using p n remove_first_None [OF n] remove_first_None [OF None]
        by (simp add: count_class_def)
    qed
  qed
qed

lemma remove_selected_le: "count_class c (remove_selected c s) \<le> count_class c s - 1"
proof (cases "count_class c s = 0")
  case True
  then show ?thesis by (simp add: remove_selected_same)
next
  case False
  then show ?thesis using remove_selected_less [of c s] by simp
qed

lemma remove_selected_frame:
  "next_id (remove_selected c s) = next_id s"
  "timers (remove_selected c s) = timers s"
  "chatInput (remove_selected c s) = chatInput s"
  "requests (remove_selected c s) = requests s"
  "console (remove_selected c s) = console s"
  by (simp_all add: remove_selected_def split: option.splits)

lemma remove_first_zero: "count_nodes c ns = 0 \<Longrightarrow> remove_first c ns = None"
  using remove_first_Some [of c ns] by (cases "remove_first c ns") auto

lemma prune_zero: "count_trees c f = 0 \<Longrightarrow> prune c f = None"
  using prune_Some [of c f] by (cases "prune c f") auto

lemma remove_first_last:
  assumes "count_nodes c ns = 0" and "has_class c n"
  shows "remove_first c (ns @ [n]) = Some ns"
  using assms
proof (induction ns)
  case Nil
  then show ?case by simp
next
  case (Cons a ns)
  then have "\<not> has_class c a" "prune c (inner a) = None" "count_nodes c ns = 0"
    by (auto split: if_splits intro: prune_zero)
  then show ?case using Cons by simp
qed

lemma count_nodes_append: "count_nodes c (xs @ ys) = count_nodes c xs + count_nodes c ys"
  by (induction xs) auto

section \<open>Tooltips come and go\<close>

lemma tooltip_tokens: "class_tokens (js ''tooltip'') = [js ''tooltip'']"
  by (simp add: class_tokens_def is_ascii_ws_def)

lemma tooltip_count_next_id [simp]: "tooltip_count (s\<lparr>next_id := k\<rparr>) = tooltip_count s"
  by (simp add: tooltip_count_def count_class_def)

lemma esconder_removes:
  "tooltip_count (esconderTooltip s) \<le> tooltip_count s - 1"
  using remove_selected_le [of "js ''tooltip''" s]
  by (simp add: esconderTooltip_def tooltip_count_def)

lemma mostrar_adds:
  "tooltip_count (mostrarTooltip texto s) =
     (if texto = None \<or> texto = Some [] then tooltip_count s else Suc (tooltip_count s))"
  using tooltip_tokens
  by (cases texto)
     (auto simp: mostrarTooltip_def tooltip_count_def count_class_def count_nodes_append
        has_class_def Let_def)

text \<open>
  C9 (as amended). The claim reads: a hover-enter followed by a hover-leave leaves zero
  tooltip nodes in the page. \<open>esconderTooltip\<close> removes the first element of class \<open>tooltip\<close>
  of the document, whichever it is, and no other. What holds: whatever the hovered
  element's \<open>data-tooltip\<close> holds, a hover-enter followed by a hover-leave leaves no more
  elements of class \<open>tooltip\<close> in the document than there were before the hover-enter,
  hence none when there was none, and then the page is as it was before the hover-enter
  but for the counter of identities; and a hover-enter on an element without the
  attribute, or with an empty one, leaves the page as it is.
\<close>

theorem hover_leaves_no_tooltip:
  "tooltip_count (esconderTooltip (mostrarTooltip texto s)) \<le> tooltip_count s
   \<and> (tooltip_count s = 0 \<longrightarrow> tooltip_count (esconderTooltip (mostrarTooltip texto s)) = 0)
   \<and> (tooltip_count s = 0 \<and> t \<noteq> [] \<longrightarrow>
        esconderTooltip (mostrarTooltip (Some t) s) = s\<lparr>next_id := Suc (next_id s)\<rparr>)
   \<and> mostrarTooltip None s = s
   \<and> mostrarTooltip (Some []) s = s"
proof -
  have restored: "tooltip_count s = 0 \<and> t \<noteq> [] \<longrightarrow>
        esconderTooltip (mostrarTooltip (Some t) s) = s\<lparr>next_id := Suc (next_id s)\<rparr>"
  proof
    assume a: "tooltip_count s = 0 \<and> t \<noteq> []"
    then have c: "count_nodes (js ''tooltip'') (chatMessages s) = 0"
      and e: "count_nodes (js ''tooltip'') (elements s) = 0"
      by (simp_all add: tooltip_count_def count_class_def)
    have m: "remove_first (js ''tooltip'') (chatMessages s) = None"
      by (rule remove_first_zero [OF c])
    have l: "remove_first (js ''tooltip'')
               (elements s @ [\<lparr>nid = next_id s, classList = class_tokens (js ''tooltip''),
                               content = Text t, inner = []\<rparr>]) = Some (elements s)"
      using tooltip_tokens by (intro remove_first_last [OF e]) (simp add: has_class_def)
    show "esconderTooltip (mostrarTooltip (Some t) s) = s\<lparr>next_id := Suc (next_id s)\<rparr>"
      using a m l by (simp add: esconderTooltip_def mostrarTooltip_def remove_selected_def)
  qed
  have le: "tooltip_count (esconderTooltip (mostrarTooltip texto s)) \<le> tooltip_count s"
    using esconder_removes [of "mostrarTooltip texto s"] mostrar_adds [of texto s]
    by (simp split: if_splits)
  then have z: "tooltip_count s = 0 \<longrightarrow> tooltip_count (esconderTooltip (mostrarTooltip texto s)) = 0"
    by simp
  have n: "mostrarTooltip None s = s" "mostrarTooltip (Some []) s = s"
    by (simp_all add: mostrarTooltip_def)
  show ?thesis
    by (intro conjI le z restored n)
qed

text \<open>The theorem on the page where \<open>hi\<close> was just sent, which holds no tooltip, for an
  element whose tooltip reads \<open>Ajuda\<close>.\<close>

theorem hover_leaves_no_tooltip_witness:
  "tooltip_count hi_sent = 0 \<and>
   tooltip_count (mostrarTooltip (Some (js ''Ajuda'')) hi_sent) = 1 \<and>
   tooltip_count (esconderTooltip (mostrarTooltip (Some (js ''Ajuda'')) hi_sent)) = 0 \<and>
   esconderTooltip (mostrarTooltip (Some (js ''Ajuda'')) hi_sent) = hi_sent\<lparr>next_id := 3\<rparr> \<and>
   mostrarTooltip None hi_sent = hi_sent"
proof -
  have z: "tooltip_count hi_sent = 0"
    by (simp add: hi_sent_eq tooltip_count_def count_class_def message_node_def has_class_def
          example_parse_def typing_indicator_def injected_def html_of_def re_defs)
  have o: "tooltip_count (mostrarTooltip (Some (js ''Ajuda'')) hi_sent) = 1"
    using z by (simp add: mostrar_adds)
  have i: "next_id hi_sent = 2"
    by (simp add: hi_sent_eq)
  show ?thesis
    using z o i hover_leaves_no_tooltip [of "Some (js ''Ajuda'')" hi_sent "js ''Ajuda''"] by simp
qed

text \<open>
  The claim as stated fails for an annotated element inside another: the pointer is over
  the outer one, whose tooltip \<open>A\<close> shows; it enters the inner one and leaves it again, and
  the hover-leave removes \<open>A\<close>, the first tooltip of the document. The tooltip \<open>B\<close> of the
  inner element stays.
\<close>

theorem nested_hover_counterexample:
  "tooltip_count
     (esconderTooltip (mostrarTooltip (Some (js ''B'')) (mostrarTooltip (Some (js ''A'')) empty_page))) = 1 \<and>
   map content (elements
     (esconderTooltip (mostrarTooltip (Some (js ''B'')) (mostrarTooltip (Some (js ''A'')) empty_page)))) =
     [Text (js ''B'')]"
  by (simp add: esconderTooltip_def mostrarTooltip_def remove_selected_def tooltip_count_def
        count_class_def empty_page_def class_tokens_def is_ascii_ws_def has_class_def)

section \<open>One toast at a time\<close>

lemma toast_tokens:
  "js ''toast-notification'' \<in> set (class_tokens (js ''toast-notification toast-'' @ tipo))"
  by (simp add: class_tokens_def is_ascii_ws_def)

lemma has_class_add: "has_class c (add_class d n) \<longleftrightarrow> has_class c n \<or> c = d"
  by (auto simp: has_class_def add_class_def)

lemma has_class_remove: "has_class c (remove_class d n) \<longleftrightarrow> has_class c n \<and> c \<noteq> d"
  by (auto simp: has_class_def remove_class_def)

lemma toast_show_add:
  "has_class (js ''toast-notification'') (add_class (js ''show'') n) = has_class (js ''toast-notification'') n"
  using has_class_add [of "js ''toast-notification''" "js ''show''" n] by simp

lemma toast_show_remove:
  "has_class (js ''toast-notification'') (remove_class (js ''show'') n) = has_class (js ''toast-notification'') n"
  using has_class_remove [of "js ''toast-notification''" "js ''show''" n] by simp

lemma inner_add_class: "inner (add_class d n) = inner n"
  by (simp add: add_class_def)

lemma inner_remove_class: "inner (remove_class d n) = inner n"
  by (simp add: remove_class_def)

lemma count_nodes_map:
  assumes "\<And>n. has_class c (f n) = has_class c n" and "\<And>n. inner (f n) = inner n"
  shows "count_nodes c (map (\<lambda>n. if g n then f n else n) xs) = count_nodes c xs"
  using assms by (induction xs) auto

lemma count_nodes_filter: "count_nodes c (filter Q xs) \<le> count_nodes c xs"
  by (induction xs) auto

lemma toast_count_update:
  assumes "\<And>n. has_class (js ''toast-notification'') (f n) = has_class (js ''toast-notification'') n"
      and "\<And>n. inner (f n) = inner n"
  shows "toast_count (update_node i f s) = toast_count s"
  unfolding toast_count_def update_node_def count_class_def
  using count_nodes_map [of "js ''toast-notification''" f "\<lambda>n. nid n = i" "elements s"] assms
  by simp

lemma toast_count_remove: "toast_count (remove_node i s) \<le> toast_count s"
  using count_nodes_filter [of "js ''toast-notification''" "\<lambda>n. nid n \<noteq> i" "elements s"]
  by (simp add: toast_count_def remove_node_def count_class_def)

lemma toast_count_timers [simp]: "toast_count (s\<lparr>timers := t\<rparr>) = toast_count s"
  by (simp add: toast_count_def count_class_def)

text \<open>The toasts after a call: what the removal left, the new toast, and what the
  message's markup made inside it.\<close>

lemma notificacao_count:
  "toast_count (mostrarNotificacao parse inherited mensagem tipo s) =
     toast_count (remove_selected (js ''toast-notification'') s) + 1 +
     count_trees (js ''toast-notification'') (parse (toast_markup inherited mensagem tipo))"
  using toast_tokens [of "tipo_of tipo"]
  by (simp add: mostrarNotificacao_def Let_def toast_count_def count_class_def
        count_nodes_append has_class_def)

lemma cleared:
  assumes "toast_count s \<le> 1"
  shows "toast_count (remove_selected (js ''toast-notification'') s) = 0"
  using assms remove_selected_le [of "js ''toast-notification''" s]
  by (simp add: toast_count_def)

lemma notificacao_last:
  "last (elements (mostrarNotificacao parse inherited mensagem tipo s)) =
     \<lparr>nid = next_id s,
      classList = class_tokens (js ''toast-notification toast-'' @ tipo_of tipo),
      content = Html (toast_markup inherited mensagem tipo),
      inner = parse (toast_markup inherited mensagem tipo)\<rparr>"
  by (simp add: mostrarNotificacao_def Let_def remove_selected_frame)

lemma step_keeps:
  assumes "toast_count s \<le> 1" and "plain_call parse inherited e"
  shows "toast_count (step parse inherited e s) \<le> 1"
proof (cases e)
  case (Call m t)
  then show ?thesis
    using notificacao_count [of parse inherited m t s] cleared [OF assms(1)] assms(2) by simp
next
  case (Fire k)
  show ?thesis
  proof (cases "k < length (timers s)")
    case False
    then show ?thesis using Fire assms by simp
  next
    case True
    define s1 where "s1 = s\<lparr>timers := take k (timers s) @ drop (Suc k) (timers s)\<rparr>"
    have s1: "toast_count s1 \<le> 1"
      using assms by (simp add: s1_def)
    have "toast_count (run_callback cb s1) \<le> 1" for cb
    proof (cases cb)
      case (AddShow i)
      then show ?thesis
        using s1 toast_count_update [of "add_class (js ''show'')" i s1] toast_show_add inner_add_class
        by simp
    next
      case (Hide i)
      then show ?thesis
        using s1 toast_count_update [of "remove_class (js ''show'')" i s1] toast_show_remove
          inner_remove_class
        by (simp add: Let_def)
    next
      case (Remove i)
      then show ?thesis
        using s1 toast_count_remove [of i s1] by simp
    qed
    then show ?thesis
      using Fire True by (simp add: s1_def)
  qed
qed

lemma run_keeps:
  assumes "toast_count s \<le> 1" and "\<forall>e\<in>set es. plain_call parse inherited e"
  shows "toast_count (run_events parse inherited es s) \<le> 1"
  using assms
proof (induction es arbitrary: s)
  case Nil
  then show ?case by simp
next
  case (Cons e es)
  from step_keeps [OF Cons.prems(1), of parse inherited e] Cons.prems(2)
  have "toast_count (step parse inherited e s) \<le> 1" by simp
  from Cons.IH [OF this] Cons.prems(2) show ?case by simp
qed

text \<open>
  C8 (as amended). The claim reads: after calls with any messages at most one toast node
  exists. The message is assigned to \<open>innerHTML\<close>, so a message can create elements of
  class \<open>toast-notification\<close> itself, and \<open>querySelector\<close> finds the first element of that
  class anywhere in the document, the chat transcript included. What holds: on a page
  with at most one element of class \<open>toast-notification\<close>, after any sequence of calls of
  \<open>mostrarNotificacao\<close> (any kind, or none) whose messages, as markup, create no element of
  that class, and firings of pending timers in any order, and after each of its first \<open>k\<close>
  events for every \<open>k\<close>, the document holds at most one element of the class; and right
  after such a call it holds exactly one, the toast the call created, which is the last
  element of the document: the one that was there has been removed.
\<close>

theorem one_toast:
  assumes "toast_count s \<le> 1"
      and "\<forall>e\<in>set es. plain_call parse inherited e"
  shows "toast_count (run_events parse inherited (take k es) s) \<le> 1
       \<and> (plain_call parse inherited (Call mensagem tipo) \<longrightarrow>
            toast_count (mostrarNotificacao parse inherited mensagem tipo s) = 1
          \<and> has_class (js ''toast-notification'')
               (last (elements (mostrarNotificacao parse inherited mensagem tipo s)))
          \<and> last (elements (mostrarNotificacao parse inherited mensagem tipo s)) =
               \<lparr>nid = next_id s,
                classList = class_tokens (js ''toast-notification toast-'' @ tipo_of tipo),
                content = Html (toast_markup inherited mensagem tipo),
                inner = parse (toast_markup inherited mensagem tipo)\<rparr>)"
proof -
  have "\<forall>e\<in>set (take k es). plain_call parse inherited e"
    using assms(2) by (auto dest: in_set_takeD)
  from run_keeps [OF assms(1) this]
  have a: "toast_count (run_events parse inherited (take k es) s) \<le> 1" .
  have b: "plain_call parse inherited (Call mensagem tipo) \<longrightarrow>
            toast_count (mostrarNotificacao parse inherited mensagem tipo s) = 1"
    using notificacao_count [of parse inherited mensagem tipo s] cleared [OF assms(1)] by simp
  have c: "has_class (js ''toast-notification'')
               (last (elements (mostrarNotificacao parse inherited mensagem tipo s)))"
    using toast_tokens [of "tipo_of tipo"] by (simp add: notificacao_last has_class_def)
  show ?thesis
    using a b c notificacao_last [of parse inherited mensagem tipo s] by blast
qed

lemma plain_examples:
  "plain_call example_parse (\<lambda>k. []) (Call (js ''Copiado'') (Some (js ''success'')))"
  "plain_call example_parse (\<lambda>k. []) (Call (js ''Erro ao copiar'') (Some (js ''error'')))"
  "plain_call example_parse (\<lambda>k. []) (Call (js ''x'') None)"
  "plain_call example_parse (\<lambda>k. []) (Call (js ''a'') (Some (js ''error'')))"
  "plain_call example_parse (\<lambda>k. []) (Call (js ''b'') None)"
  by (simp_all add: example_parse_def toast_markup_def icone_def tipo_of_def typing_indicator_def
        injected_def)

text \<open>The theorem on the empty page: a run of calls and timers, and two calls in a row.\<close>

theorem one_toast_witness:
  "toast_count empty_page \<le> 1 \<and>
   list_all (plain_call example_parse (\<lambda>k. []))
     [Call (js ''Copiado'') (Some (js ''success'')), Fire 0,
      Call (js ''Erro ao copiar'') (Some (js ''error'')), Fire 0, Fire 2, Call (js ''x'') None] \<and>
   toast_count (run_events example_parse (\<lambda>k. [])
      (take 5 [Call (js ''Copiado'') (Some (js ''success'')), Fire 0, Call (js ''Erro ao copiar'') (Some (js ''error'')),
               Fire 0, Fire 2, Call (js ''x'') None]) empty_page) \<le> 1 \<and>
   toast_count (mostrarNotificacao example_parse (\<lambda>k. []) (js ''b'') None
         (mostrarNotificacao example_parse (\<lambda>k. []) (js ''a'') (Some (js ''error'')) empty_page)) = 1 \<and>
   nid (last (elements (mostrarNotificacao example_parse (\<lambda>k. []) (js ''b'') None
         (mostrarNotificacao example_parse (\<lambda>k. []) (js ''a'') (Some (js ''error'')) empty_page)))) = 1"
proof -
  have z: "toast_count empty_page \<le> 1"
    by (simp add: toast_count_def count_class_def empty_page_def)
  have p: "\<forall>e\<in>set [Call (js ''Copiado'') (Some (js ''success'')), Fire 0,
              Call (js ''Erro ao copiar'') (Some (js ''error'')), Fire 0, Fire 2, Call (js ''x'') None].
      plain_call example_parse (\<lambda>k. []) e"
    using plain_examples by simp
  have n: "next_id (mostrarNotificacao example_parse (\<lambda>k. []) (js ''a'') (Some (js ''error'')) empty_page) = 1"
    by (simp add: mostrarNotificacao_def Let_def remove_selected_frame empty_page_def)
  have o: "toast_count (mostrarNotificacao example_parse (\<lambda>k. []) (js ''a'') (Some (js ''error'')) empty_page) \<le> 1"
    using one_toast [OF z p, where k = 0 and mensagem = "js ''a''" and tipo = "Some (js ''error'')"]
      plain_examples(4)
    by simp
  have l: "list_all (plain_call example_parse (\<lambda>k. []))
     [Call (js ''Copiado'') (Some (js ''success'')), Fire 0,
      Call (js ''Erro ao copiar'') (Some (js ''error'')), Fire 0, Fire 2, Call (js ''x'') None]"
    using plain_examples by simp
  show ?thesis
    using z l n
      one_toast [OF z p, where k = 5 and mensagem = "js ''a''" and tipo = "Some (js ''error'')"]
      one_toast [OF o p, where k = 0 and mensagem = "js ''b''" and tipo = None]
      plain_examples(5)
    by simp
qed

text \<open>
  The claim as stated fails for a message that holds markup: one call on the empty page
  with the message \<open><b class=toast-notification>x</b>\<close> leaves two elements of class
  \<open>toast-notification\<close>, the toast and the element in it. It fails as well for plain
  messages on a page whose transcript shows that text twice: each call removes one of the
  elements in the transcript, and after two calls both toasts are in the document.
\<close>

theorem injected_toast_counterexample:
  "toast_count (mostrarNotificacao example_parse (\<lambda>k. []) injected None empty_page) = 2 \<and>
   toast_count typed_twice = 2 \<and>
   map nid (filter (has_class (js ''toast-notification''))
     (elements (mostrarNotificacao example_parse (\<lambda>k. []) (js ''b'') None
        (mostrarNotificacao example_parse (\<lambda>k. []) (js ''a'') None typed_twice)))) = [2, 3]"
proof -
  have h: "html_of injected = injected"
    by (rule html_plain) (simp_all add: injected_def)
  have a: "toast_count (mostrarNotificacao example_parse (\<lambda>k. []) injected None empty_page) = 2"
    by (simp add: toast_count_def count_class_def mostrarNotificacao_def Let_def
          remove_selected_def empty_page_def example_parse_def toast_markup_def icone_def
          tipo_of_def typing_indicator_def injected_def class_tokens_def is_ascii_ws_def
          has_class_def)
  have m: "message_node example_parse i User injected =
      \<lparr>nid = i, classList = [js ''message'', js ''user''],
       content = Html (js ''<p>'' @ injected @ js ''</p>''),
       inner = [El [js ''toast-notification''] []]\<rparr>" for i
    using h by (simp add: message_node_def example_parse_def typing_indicator_def injected_def)
  have b: "toast_count typed_twice = 2"
    by (simp add: typed_twice_def empty_page_def toast_count_def count_class_def m has_class_def)
  have c: "map nid (filter (has_class (js ''toast-notification''))
     (elements (mostrarNotificacao example_parse (\<lambda>k. []) (js ''b'') None
        (mostrarNotificacao example_parse (\<lambda>k. []) (js ''a'') None typed_twice)))) = [2, 3]"
    by (simp add: typed_twice_def empty_page_def m mostrarNotificacao_def Let_def
          remove_selected_def has_class_def class_tokens_def is_ascii_ws_def tipo_of_def)
  show ?thesis
    by (intro conjI a b c)
qed

end
